theory Spec2Isabelle
  imports Complex_Main "HOL-Library.Multiset"
begin

section \<open>Values, errors and the host engine\<close>

text \<open>
  The facade receives its query as an untyped JavaScript value (\<^verbatim>\<open>query: any\<close>). The values
  a caller can send are JSON values. An object is an association list of its own enumerable
  properties (JavaScript objects have no duplicate keys; the first entry of a key is the one
  a property read returns). Numbers are finite doubles; their equality and order are those
  of the rationals they denote, so they are modelled as \<^typ>\<open>rat\<close>. The text of a query (its
  keys, column names and filter values) and the field names of the records are texts of
  8-bit characters, a \<^typ>\<open>char\<close> standing for the code unit of the same number.
\<close>

datatype json =
    JNull
  | JBool bool
  | JNum rat
  | JStr string
  | JArr "json list"
  | JObj "(string \<times> json) list"

text \<open>
  A stored record maps field names to scalars (strings or numbers). A stored string is the
  sequence of its UTF-16 code units, the numbers \<^verbatim>\<open>charCodeAt\<close> returns (below 65536);
  \<open>ascii\<close> gives the code units of a text of 8-bit characters.
\<close>

type_synonym jstring = "nat list"

definition ascii :: "string \<Rightarrow> jstring" where
  "ascii s = map of_char s"

datatype scalar = Str jstring | Num rat

type_synonym course = "(string \<times> scalar) list"

type_synonym dataset = "course list"

text \<open>
  \<^verbatim>\<open>InsightError\<close>, \<^verbatim>\<open>NotFoundError\<close> and \<^verbatim>\<open>ResultTooLargeError\<close> are the three error classes of
  \<^verbatim>\<open>IInsightFacade\<close>. \<open>TypeError\<close> and \<open>SyntaxError\<close> are the engine's own exceptions
  (reading a property of \<^verbatim>\<open>null\<close> or \<^verbatim>\<open>undefined\<close>, calling a missing method, compiling a
  malformed regular expression); the text they carry stands for the engine's message.
\<close>

datatype error =
    InsightError string
  | NotFoundError string
  | ResultTooLargeError
  | TypeError string
  | SyntaxError string

fun message :: "error \<Rightarrow> string" where
  "message (InsightError m) = m"
| "message (NotFoundError m) = m"
| "message ResultTooLargeError = []"
| "message (TypeError m) = m"
| "message (SyntaxError m) = m"

datatype InsightDatasetKind = Courses | Rooms

text \<open>
  Three conversions of the language are left to the host engine and are taken as
  parameters: the text of a number, the number a string converts to (\<open>None\<close> is NaN), and
  \<^verbatim>\<open>new RegExp(source).test(subject)\<close> for a source that uses regular-expression syntax
  beyond literal characters, \<^verbatim>\<open>.\<close> and \<^verbatim>\<open>.*\<close>.
\<close>

record engine =
  number_to_string :: "rat \<Rightarrow> string"
  string_to_number :: "jstring \<Rightarrow> rat option"
  regexp_test :: "string \<Rightarrow> jstring \<Rightarrow> error + bool"

section \<open>Strings\<close>

text \<open>\<^verbatim>\<open>s.split(c)\<close> for a one-character separator: always at least one piece.\<close>

fun split :: "char \<Rightarrow> string \<Rightarrow> string list" where
  "split c [] = [[]]"
| "split c (x # xs) =
     (if x = c then [] # split c xs
      else (case split c xs of [] \<Rightarrow> [[x]] | p # ps \<Rightarrow> (x # p) # ps))"

text \<open>\<^verbatim>\<open>pieces.join(sep)\<close>.\<close>

fun join :: "string \<Rightarrow> string list \<Rightarrow> string" where
  "join sep [] = []"
| "join sep [p] = p"
| "join sep (p # q # ps) = p @ sep @ join sep (q # ps)"

text \<open>
  \<^verbatim>\<open>/^[^_]+_[^_]+$/.test(s)\<close>: exactly one underscore, with a non-empty part on each side
  (\<^verbatim>\<open>[^_]\<close> also matches line terminators).
\<close>

definition qualified_name :: "string \<Rightarrow> bool" where
  "qualified_name s =
     (case split (CHR ''_'') s of [a, b] \<Rightarrow> a \<noteq> [] \<and> b \<noteq> [] | _ \<Rightarrow> False)"

text \<open>\<^verbatim>\<open>s.split("_")[i]\<close>, \<open>None\<close> for \<^verbatim>\<open>undefined\<close>.\<close>

definition split_at :: "string \<Rightarrow> nat \<Rightarrow> string option" where
  "split_at s i =
     (let ps = split (CHR ''_'') s in if i < length ps then Some (ps ! i) else None)"

definition digit_char :: "nat \<Rightarrow> char" where
  "digit_char n = ''0123456789'' ! (n mod 10)"

text \<open>The decimal text of an array index, as \<^verbatim>\<open>Object.keys\<close> lists it.\<close>

function index_key :: "nat \<Rightarrow> string" where
  "index_key n = (if n < 10 then [digit_char n] else index_key (n div 10) @ [digit_char (n mod 10)])"
  by pat_completeness auto
termination
  by (relation "measure id") auto

section \<open>Reading untyped values\<close>

text \<open>
  The own enumerable properties of a value, in the order \<^verbatim>\<open>Object.keys\<close> lists them:
  the entries of an object, the indices of an array or of a string, none for a number or a
  boolean; \<^verbatim>\<open>Object.keys(null)\<close> throws.
\<close>

definition Object_entries :: "json \<Rightarrow> error + (string \<times> json) list" where
  "Object_entries v =
     (case v of
        JNull \<Rightarrow> Inl (TypeError ''Cannot convert undefined or null to object'')
      | JBool _ \<Rightarrow> Inr []
      | JNum _ \<Rightarrow> Inr []
      | JStr s \<Rightarrow> Inr (zip (map index_key [0..<length s]) (map (\<lambda>c. JStr [c]) s))
      | JArr xs \<Rightarrow> Inr (zip (map index_key [0..<length xs]) xs)
      | JObj kvs \<Rightarrow> Inr kvs)"

definition Object_keys :: "json \<Rightarrow> error + string list" where
  "Object_keys v = (case Object_entries v of Inl e \<Rightarrow> Inl e | Inr es \<Rightarrow> Inr (map fst es))"

text \<open>
  \<^verbatim>\<open>v[name]\<close> for a name that is neither an index nor a built-in property (\<^verbatim>\<open>"OPTIONS"\<close>,
  \<^verbatim>\<open>"WHERE"\<close>, \<^verbatim>\<open>"COLUMNS"\<close>, \<^verbatim>\<open>"ORDER"\<close>): \<open>None\<close> is \<^verbatim>\<open>undefined\<close>; reading a property of
  \<^verbatim>\<open>null\<close> or \<^verbatim>\<open>undefined\<close> throws.
\<close>

definition get_prop :: "json option \<Rightarrow> string \<Rightarrow> error + json option" where
  "get_prop v name =
     (case v of
        None \<Rightarrow> Inl (TypeError ''Cannot read property of undefined'')
      | Some JNull \<Rightarrow> Inl (TypeError ''Cannot read property of null'')
      | Some (JObj kvs) \<Rightarrow> Inr (map_of kvs name)
      | Some _ \<Rightarrow> Inr None)"

text \<open>\<^verbatim>\<open>v[0]\<close>.\<close>

definition first_elem :: "json option \<Rightarrow> error + json option" where
  "first_elem v =
     (case v of
        None \<Rightarrow> Inl (TypeError ''Cannot read property of undefined'')
      | Some JNull \<Rightarrow> Inl (TypeError ''Cannot read property of null'')
      | Some (JArr xs) \<Rightarrow> Inr (case xs of [] \<Rightarrow> None | x # _ \<Rightarrow> Some x)
      | Some (JStr s) \<Rightarrow> Inr (case s of [] \<Rightarrow> None | c # _ \<Rightarrow> Some (JStr [c]))
      | Some (JObj kvs) \<Rightarrow> Inr (map_of kvs ''0'')
      | Some _ \<Rightarrow> Inr None)"

text \<open>\<^verbatim>\<open>v.split("_")[i]\<close>: only a string has the method.\<close>

definition split_of :: "json option \<Rightarrow> nat \<Rightarrow> error + string option" where
  "split_of v i =
     (case v of
        Some (JStr s) \<Rightarrow> Inr (split_at s i)
      | None \<Rightarrow> Inl (TypeError ''Cannot read property of undefined'')
      | Some JNull \<Rightarrow> Inl (TypeError ''Cannot read property of null'')
      | Some _ \<Rightarrow> Inl (TypeError ''split is not a function''))"

text \<open>\<^verbatim>\<open>for (const x of v)\<close>: arrays and strings are iterable, nothing else in JSON is.\<close>

definition iterate :: "json option \<Rightarrow> error + json list" where
  "iterate v =
     (case v of
        Some (JArr xs) \<Rightarrow> Inr xs
      | Some (JStr s) \<Rightarrow> Inr (map (\<lambda>c. JStr [c]) s)
      | _ \<Rightarrow> Inl (TypeError ''value is not iterable''))"

text \<open>\<^verbatim>\<open>typeof v\<close>.\<close>

fun typeof :: "json \<Rightarrow> string" where
  "typeof JNull = ''object''"
| "typeof (JBool _) = ''boolean''"
| "typeof (JNum _) = ''number''"
| "typeof (JStr _) = ''string''"
| "typeof (JArr _) = ''object''"
| "typeof (JObj _) = ''object''"

fun typeof_scalar :: "scalar \<Rightarrow> string" where
  "typeof_scalar (Str _) = ''string''"
| "typeof_scalar (Num _) = ''number''"

text \<open>
  \<^verbatim>\<open>String(v)\<close>, the conversion a regular expression applies to its subject. An array joins
  its elements with commas, \<^verbatim>\<open>null\<close> elements as the empty string.
\<close>

fun ToString :: "engine \<Rightarrow> json \<Rightarrow> string" where
  "ToString eng JNull = ''null''"
| "ToString eng (JBool b) = (if b then ''true'' else ''false'')"
| "ToString eng (JNum r) = number_to_string eng r"
| "ToString eng (JStr s) = s"
| "ToString eng (JArr xs) =
     join '','' (map (\<lambda>x. if x = JNull then [] else ToString eng x) xs)"
| "ToString eng (JObj kvs) = ''[object Object]''"

text \<open>
  \<^verbatim>\<open>JSON.stringify(v).includes("{")\<close>: the text of an object starts with a brace, a string
  is written with its braces unescaped, and the text of \<^verbatim>\<open>null\<close>, a boolean or a number has
  none.
\<close>

fun stringify_has_brace :: "json \<Rightarrow> bool" where
  "stringify_has_brace JNull = False"
| "stringify_has_brace (JBool _) = False"
| "stringify_has_brace (JNum _) = False"
| "stringify_has_brace (JStr s) = (CHR ''{'' \<in> set s)"
| "stringify_has_brace (JArr xs) = list_ex stringify_has_brace xs"
| "stringify_has_brace (JObj _) = True"

text \<open>
  \<^verbatim>\<open>xs.includes(v)\<close> compares with SameValueZero: primitives by value, while an object or an
  array is equal only to itself, and two places of one parsed query never hold the same
  object.
\<close>

definition array_includes :: "json list \<Rightarrow> json \<Rightarrow> bool" where
  "array_includes xs v =
     (case v of JArr _ \<Rightarrow> False | JObj _ \<Rightarrow> False | _ \<Rightarrow> v \<in> set xs)"

section \<open>Index sets\<close>

text \<open>
  A candidate index set is a JavaScript \<^verbatim>\<open>Set<number>\<close>: no duplicates, iterated in
  insertion order. It is modelled as the list of its members in that order.

  Modelled from the spec: \<^verbatim>\<open>SetUtils\<close> (\<^verbatim>\<open>union\<close>, \<^verbatim>\<open>intersecion\<close>, \<^verbatim>\<open>complementary\<close>,
  \<^verbatim>\<open>setFilter\<close>) is imported by the facade and is not among the sources. The spec gives
  the results as sets: the union and the intersection of the operands' index sets, the
  complement against the full index universe, and the members a predicate holds for. The
  order of the members follows the first operand that holds them (\<open>remdups\<close> keeps the
  last of equal members, so the union removes duplicates from the reversed list).
\<close>

definition unionSets :: "nat list list \<Rightarrow> nat list" where
  "unionSets subSets = rev (remdups (rev (concat subSets)))"

fun intersecion :: "nat list list \<Rightarrow> nat list" where
  "intersecion [] = []"
| "intersecion (s # ss) = filter (\<lambda>i. list_all (\<lambda>t. i \<in> set t) ss) s"

definition complementary :: "nat list \<Rightarrow> nat list \<Rightarrow> nat list" where
  "complementary a allCourses = filter (\<lambda>i. i \<notin> set a) allCourses"

text \<open>The predicate of \<^verbatim>\<open>setFilter\<close> may throw; the first throw ends the filtering.\<close>

fun setFilter :: "nat list \<Rightarrow> (nat \<Rightarrow> error + bool) \<Rightarrow> error + nat list" where
  "setFilter [] p = Inr []"
| "setFilter (x # xs) p =
     (case p x of
        Inl e \<Rightarrow> Inl e
      | Inr b \<Rightarrow>
          (case setFilter xs p of
             Inl e \<Rightarrow> Inl e
           | Inr ys \<Rightarrow> Inr (if b then x # ys else ys)))"

section \<open>The dataset store\<close>

text \<open>
  Modelled from the spec: the class \<^verbatim>\<open>Datasets\<close> (\<^verbatim>\<open>containsDataset\<close>, \<^verbatim>\<open>getDataset\<close>,
  \<^verbatim>\<open>addDataset\<close>, \<^verbatim>\<open>getIds\<close>) is imported by the facade and is not among the sources. The
  spec's store holds named datasets, each an ordered sequence of records; \<open>get\<close> fails with
  \<open>NotFoundError\<close> for an absent id.
\<close>

type_synonym Datasets = "(string \<times> dataset) list"

definition containsDataset :: "Datasets \<Rightarrow> string \<Rightarrow> bool" where
  "containsDataset st ident = (ident \<in> set (map fst st))"

definition getDataset :: "Datasets \<Rightarrow> string \<Rightarrow> error + dataset" where
  "getDataset st ident =
     (case map_of st ident of
        None \<Rightarrow> Inl (NotFoundError ''Dataset not found'')
      | Some d \<Rightarrow> Inr d)"

definition getIds :: "Datasets \<Rightarrow> string list" where
  "getIds st = map fst st"

definition store_addDataset :: "Datasets \<Rightarrow> string \<Rightarrow> dataset \<Rightarrow> Datasets" where
  "store_addDataset st ident d = st @ [(ident, d)]"

section \<open>Comparisons of the filter\<close>

text \<open>
  \<^verbatim>\<open>dataset[course][key]\<close>: \<open>None\<close> is \<^verbatim>\<open>undefined\<close> (the record lacks the field); an index
  outside the dataset would read a property of \<^verbatim>\<open>undefined\<close>.
\<close>

definition field :: "dataset \<Rightarrow> nat \<Rightarrow> string \<Rightarrow> error + scalar option" where
  "field d course key =
     (if course < length d then Inr (map_of (d ! course) key)
      else Inl (TypeError ''Cannot read property of undefined''))"

text \<open>\<^verbatim>\<open>/^\*?[^\*]*\*?$/.test(regex)\<close>: an optional star, no star, an optional star.\<close>

definition wildcard_shape :: "string \<Rightarrow> bool" where
  "wildcard_shape regex =
     (let r1 = (case regex of [] \<Rightarrow> [] | c # cs \<Rightarrow> if c = CHR ''*'' then cs else regex);
          r2 = (if r1 \<noteq> [] \<and> last r1 = CHR ''*'' then butlast r1 else r1)
      in CHR ''*'' \<notin> set r2)"

text \<open>
  The regular expression \<^verbatim>\<open>new RegExp("^" + regex.split("*").join(".*") + "$")\<close>. The pieces
  between the stars go into the source unescaped, so a character of regular-expression
  syntax in a piece keeps its meaning there. A piece of other characters matches itself,
  \<^verbatim>\<open>.\<close> matches any code unit but a line terminator (LF, CR, U+2028, U+2029), and each
  \<^verbatim>\<open>.*\<close> any run of such code units; the expression is anchored at both ends. A source
  with any other syntax character is left to the host engine.
\<close>

definition regexp_special :: "char \<Rightarrow> bool" where
  "regexp_special c = (c \<in> set ''^$|?+()[]{}'' \<or> c = CHR 0x5C)"

definition line_terminator :: "nat \<Rightarrow> bool" where
  "line_terminator c = (c = 0x0A \<or> c = 0x0D \<or> c = 0x2028 \<or> c = 0x2029)"

definition atom_match :: "char \<Rightarrow> nat \<Rightarrow> bool" where
  "atom_match p c = (if p = CHR ''.'' then \<not> line_terminator c else of_char p = c)"

fun pieces_match :: "string list \<Rightarrow> jstring \<Rightarrow> bool" where
  "pieces_match [] s = (s = [])"
| "pieces_match [p] s = list_all2 atom_match p s"
| "pieces_match (p # q # ps) s =
     (length p \<le> length s \<and> list_all2 atom_match p (take (length p) s) \<and>
      list_ex (\<lambda>k. list_all (\<lambda>c. \<not> line_terminator c) (take k (drop (length p) s)) \<and>
                   pieces_match (q # ps) (drop k (drop (length p) s)))
              [0..<Suc (length s - length p)])"

definition wildcard_test :: "engine \<Rightarrow> string \<Rightarrow> jstring \<Rightarrow> error + bool" where
  "wildcard_test eng regex subject =
     (let pieces = split (CHR ''*'') regex in
      if list_ex (list_ex regexp_special) pieces
      then regexp_test eng (''^'' @ join ''.*'' pieces @ ''$'') subject
      else Inr (pieces_match pieces subject))"

text \<open>\<^verbatim>\<open>String(a)\<close> and the number \<^verbatim>\<open>a\<close> converts to, for a stored value.\<close>

definition scalar_to_string :: "engine \<Rightarrow> scalar option \<Rightarrow> jstring" where
  "scalar_to_string eng a =
     (case a of
        None \<Rightarrow> ascii ''undefined''
      | Some (Str s) \<Rightarrow> s
      | Some (Num x) \<Rightarrow> ascii (number_to_string eng x))"

definition scalar_to_number :: "engine \<Rightarrow> scalar option \<Rightarrow> rat option" where
  "scalar_to_number eng a =
     (case a of
        None \<Rightarrow> None
      | Some (Str s) \<Rightarrow> string_to_number eng s
      | Some (Num x) \<Rightarrow> Some x)"

text \<open>
  The four functions of \<^verbatim>\<open>mapping\<close> in \<^verbatim>\<open>filterCourses\<close>. Each is called only after
  \<^verbatim>\<open>typeof value\<close> was checked, \<open>IS\<close> with a string and the others with a number.
\<close>

definition IS :: "engine \<Rightarrow> scalar option \<Rightarrow> json \<Rightarrow> error + bool" where
  "IS eng a v =
     (case v of
        JStr regex \<Rightarrow>
          if CHR ''*'' \<notin> set regex then Inr (a = Some (Str (ascii regex)))
          else if \<not> wildcard_shape regex then Inl (InsightError ''Invalid regex filter value'')
          else wildcard_test eng regex (scalar_to_string eng a)
      | _ \<Rightarrow> Inl (TypeError ''regex.includes is not a function''))"

definition EQ :: "engine \<Rightarrow> scalar option \<Rightarrow> json \<Rightarrow> error + bool" where
  "EQ eng a v =
     (case v of
        JNum b \<Rightarrow> Inr (a = Some (Num b))
      | JStr t \<Rightarrow> Inr (a = Some (Str (ascii t)))
      | _ \<Rightarrow> Inr False)"

definition LT :: "engine \<Rightarrow> scalar option \<Rightarrow> json \<Rightarrow> error + bool" where
  "LT eng a v =
     (case v of
        JNum b \<Rightarrow> Inr (case scalar_to_number eng a of None \<Rightarrow> False | Some x \<Rightarrow> x < b)
      | _ \<Rightarrow> Inr False)"

definition GT :: "engine \<Rightarrow> scalar option \<Rightarrow> json \<Rightarrow> error + bool" where
  "GT eng a v =
     (case v of
        JNum b \<Rightarrow> Inr (case scalar_to_number eng a of None \<Rightarrow> False | Some x \<Rightarrow> x > b)
      | _ \<Rightarrow> Inr False)"

definition mapping ::
  "(string \<times> string \<times> (engine \<Rightarrow> scalar option \<Rightarrow> json \<Rightarrow> error + bool)) list" where
  "mapping =
     [(''IS'', ''string'', IS), (''EQ'', ''number'', EQ),
      (''LT'', ''number'', LT), (''GT'', ''number'', GT)]"

definition filterCourses ::
  "engine \<Rightarrow> dataset \<Rightarrow> nat list \<Rightarrow> string \<Rightarrow> json \<Rightarrow> string \<Rightarrow> error + nat list" where
  "filterCourses eng d allCourses key v comparator =
     (case d of
        [] \<Rightarrow> Inl (TypeError ''Cannot convert undefined or null to object'')
      | first # _ \<Rightarrow>
          if key \<notin> set (map fst first)
          then Inl (InsightError ''Key in filter content not found in dataset'')
          else
            (case map_of mapping comparator of
               None \<Rightarrow> Inl (InsightError ''Invalid comparator'')
             | Some (ty, f) \<Rightarrow>
                 if typeof v \<noteq> ty then Inl (InsightError ''Filter content type not valid'')
                 else if map_option typeof_scalar (map_of first key) \<noteq> Some ty
                 then Inl (InsightError ''Filter content type not match'')
                 else setFilter allCourses
                        (\<lambda>course. case field d course key of
                                     Inl e \<Rightarrow> Inl e
                                   | Inr a \<Rightarrow> f eng a v)))"

section \<open>The filter evaluator\<close>

function findCourses :: "engine \<Rightarrow> Datasets \<Rightarrow> json \<Rightarrow> string \<Rightarrow> error + nat list"
  and findCoursesEach :: "engine \<Rightarrow> Datasets \<Rightarrow> json list \<Rightarrow> string \<Rightarrow> error + nat list list"
where
  "findCourses eng st filt ident =
     (case getDataset st ident of
        Inl e \<Rightarrow> Inl e
      | Inr d \<Rightarrow>
          (let allCourses = [0..<length d] in
           case Object_entries filt of
             Inl e \<Rightarrow> Inl e
           | Inr [] \<Rightarrow>
               if \<not> stringify_has_brace filt
               then Inl (InsightError ''WHERE must be an object'')
               else Inr allCourses
           | Inr [(comparator, content)] \<Rightarrow>
               (case content of
                  JArr subFilters \<Rightarrow>
                    (case findCoursesEach eng st subFilters ident of
                       Inl e \<Rightarrow> Inl e
                     | Inr subSets \<Rightarrow>
                         if subSets = []
                         then Inl (InsightError ''AND and OR must have at least one element'')
                         else if comparator = ''OR'' then Inr (unionSets subSets)
                         else if comparator = ''AND'' then Inr (intersecion subSets)
                         else Inl (InsightError ''Invalid comparator when finding courses''))
                | _ \<Rightarrow>
                    if comparator = ''NOT''
                    then (case findCourses eng st content ident of
                            Inl e \<Rightarrow> Inl e
                          | Inr s \<Rightarrow> Inr (complementary s allCourses))
                    else
                      (case Object_entries content of
                         Inl e \<Rightarrow> Inl e
                       | Inr [(contentKey, contentValue)] \<Rightarrow>
                           if \<not> qualified_name contentKey
                           then Inl (InsightError ''Invalid key format in filter content'')
                           else if split_at contentKey 0 \<noteq> Some ident
                           then Inl (InsightError ''Cannot query from two datasets'')
                           else filterCourses eng d allCourses
                                  (case split_at contentKey 1 of None \<Rightarrow> [] | Some k \<Rightarrow> k)
                                  contentValue comparator
                       | Inr _ \<Rightarrow>
                           Inl (InsightError
                                  ''Filter content should have one and only one key'')))
           | Inr _ \<Rightarrow> Inl (InsightError ''There cannot be more than one object in filter'')))"
| "findCoursesEach eng st [] ident = Inr []"
| "findCoursesEach eng st (subFilter # rest) ident =
     (case findCourses eng st subFilter ident of
        Inl e \<Rightarrow> Inl e
      | Inr s \<Rightarrow>
          (case findCoursesEach eng st rest ident of
             Inl e \<Rightarrow> Inl e
           | Inr ss \<Rightarrow> Inr (s # ss)))"
  by pat_completeness auto
termination
proof -
  have single: "filt = JObj [(k, v)] \<or> (filt = JArr [v] \<and> k = ''0'') \<or>
      (\<exists>c. filt = JStr [c] \<and> v = JStr [c] \<and> k = ''0'')"
    if entries: "Object_entries filt = Inr [(k, v)]" for filt k v
  proof (cases filt)
    case (JStr s)
    with entries have "zip (map index_key [0..<length s]) (map (\<lambda>c. JStr [c]) s) = [(k, v)]"
      by (simp add: Object_entries_def)
    then have "length s = 1"
      by (metis length_map length_zip length_upt min.idem diff_zero length_Cons
          list.size(3) One_nat_def)
    then obtain c where "s = [c]" by (cases s) auto
    with entries JStr show ?thesis by (auto simp: Object_entries_def digit_char_def)
  next
    case (JArr xs)
    with entries have "zip (map index_key [0..<length xs]) xs = [(k, v)]"
      by (simp add: Object_entries_def)
    then have "length xs = 1"
      by (metis length_map length_zip length_upt min.idem diff_zero length_Cons
          list.size(3) One_nat_def)
    then obtain x where "xs = [x]" by (cases xs) auto
    with entries JArr show ?thesis by (auto simp: Object_entries_def digit_char_def)
  qed (use entries in \<open>auto simp: Object_entries_def\<close>)
  show ?thesis
    apply (relation "measure (\<lambda>x. case x of Inl (_, _, f, _) \<Rightarrow> size f
                                        | Inr (_, _, fs, _) \<Rightarrow> size_list size fs)")
        apply simp
       apply (auto dest!: single)
    done
qed

declare findCourses.simps [simp del]

section \<open>The projector\<close>

text \<open>An output row is an object built by assignments \<^verbatim>\<open>result[column] = value\<close>.\<close>

fun assign :: "course \<Rightarrow> string \<Rightarrow> scalar \<Rightarrow> course" where
  "assign [] k v = [(k, v)]"
| "assign ((k', v') # r) k v = (if k' = k then (k, v) # r else (k', v') # assign r k v)"

text \<open>The first loop of \<^verbatim>\<open>selectColumns\<close>: the format and the dataset of every column.\<close>

fun checkColumns :: "engine \<Rightarrow> json list \<Rightarrow> string \<Rightarrow> error + unit" where
  "checkColumns eng [] ident = Inr ()"
| "checkColumns eng (column # rest) ident =
     (if \<not> qualified_name (ToString eng column)
      then Inl (InsightError ''Invalid key format in columns'')
      else
        (case split_of (Some column) 0 of
           Inl e \<Rightarrow> Inl e
         | Inr p \<Rightarrow>
             if p \<noteq> Some ident then Inl (InsightError ''Cannot query from two datasets'')
             else checkColumns eng rest ident))"

text \<open>The inner loop of the second loop: one row, column by column.\<close>

fun selectRow ::
  "engine \<Rightarrow> Datasets \<Rightarrow> string \<Rightarrow> nat \<Rightarrow> json list \<Rightarrow> course \<Rightarrow> error + course" where
  "selectRow eng st ident course [] result = Inr result"
| "selectRow eng st ident course (column # rest) result =
     (case getDataset st ident of
        Inl e \<Rightarrow> Inl e
      | Inr d \<Rightarrow>
          if \<not> course < length d
          then Inl (TypeError ''Cannot convert undefined or null to object'')
          else
            (case split_of (Some column) 1 of
               Inl e \<Rightarrow> Inl e
             | Inr key \<Rightarrow>
                 (case (case key of None \<Rightarrow> None | Some k \<Rightarrow> map_of (d ! course) k) of
                    None \<Rightarrow>
                      Inl (InsightError
                             (''Key in columns not exists in dataset: '' @ ToString eng column))
                  | Some v \<Rightarrow>
                      selectRow eng st ident course rest
                        (assign result (ToString eng column) v))))"

text \<open>The second loop: one row for each member of the candidate set, in its order.\<close>

fun selectRows ::
  "engine \<Rightarrow> Datasets \<Rightarrow> string \<Rightarrow> nat list \<Rightarrow> json list \<Rightarrow> error + course list" where
  "selectRows eng st ident [] columns = Inr []"
| "selectRows eng st ident (course # rest) columns =
     (case selectRow eng st ident course columns [] of
        Inl e \<Rightarrow> Inl e
      | Inr result \<Rightarrow>
          (case selectRows eng st ident rest columns of
             Inl e \<Rightarrow> Inl e
           | Inr results \<Rightarrow> Inr (result # results)))"

definition selectColumns ::
  "engine \<Rightarrow> Datasets \<Rightarrow> nat list \<Rightarrow> json option \<Rightarrow> string \<Rightarrow> error + course list" where
  "selectColumns eng st courseSet columns ident =
     (case iterate columns of
        Inl e \<Rightarrow> Inl e
      | Inr cols \<Rightarrow>
          (case checkColumns eng cols ident of
             Inl e \<Rightarrow> Inl e
           | Inr _ \<Rightarrow> selectRows eng st ident courseSet cols))"

section \<open>The sorter\<close>

text \<open>
  The string branch of \<^verbatim>\<open>rule\<close>: the first position where the code units differ decides;
  without one, the lengths decide.
\<close>

fun rule_string :: "jstring \<Rightarrow> jstring \<Rightarrow> int" where
  "rule_string [] [] = 0"
| "rule_string [] (y # ys) = - 1"
| "rule_string (x # xs) [] = 1"
| "rule_string (x # xs) (y # ys) =
     (if x \<noteq> y then (if x > y then 1 else - 1) else rule_string xs ys)"

text \<open>
  \<^verbatim>\<open>rule(a, b)\<close> on two values read from rows (\<open>None\<close> is \<^verbatim>\<open>undefined\<close>). A string against a
  number reads \<^verbatim>\<open>b.length\<close> as \<^verbatim>\<open>undefined\<close>, so the loop does not run and both length
  comparisons are false; against \<^verbatim>\<open>undefined\<close> the read of \<^verbatim>\<open>b.length\<close> throws. A number
  against a string compares with the number the string converts to.
\<close>

definition rule :: "engine \<Rightarrow> scalar option \<Rightarrow> scalar option \<Rightarrow> error + int" where
  "rule eng a b =
     (case a of
        Some (Str s) \<Rightarrow>
          (case b of
             Some (Str t) \<Rightarrow> Inr (rule_string s t)
           | Some (Num y) \<Rightarrow> Inr (- 1)
           | None \<Rightarrow> Inl (TypeError ''Cannot read property of undefined''))
      | _ \<Rightarrow>
          if a = b then Inr 0
          else
            (case (scalar_to_number eng a, scalar_to_number eng b) of
               (Some x, Some y) \<Rightarrow> Inr (if x > y then 1 else - 1)
             | _ \<Rightarrow> Inr (- 1)))"

definition compareResults :: "engine \<Rightarrow> course \<Rightarrow> course \<Rightarrow> json option \<Rightarrow> error + int" where
  "compareResults eng a b options =
     (case get_prop options ''ORDER'' of
        Inl e \<Rightarrow> Inl e
      | Inr None \<Rightarrow> rule eng (map_of a ''undefined'') (map_of b ''undefined'')
      | Inr (Some order) \<Rightarrow>
          rule eng (map_of a (ToString eng order)) (map_of b (ToString eng order)))"

text \<open>
  \<^verbatim>\<open>results.sort(compare)\<close>. The order in which the engine's sort calls the comparison is
  its own; the model inserts each row before the first row it does not compare greater than,
  which keeps rows that compare equal in their order. A throw of the comparison ends the
  sort.
\<close>

fun sort_insert :: "('a \<Rightarrow> 'a \<Rightarrow> error + int) \<Rightarrow> 'a \<Rightarrow> 'a list \<Rightarrow> error + 'a list" where
  "sort_insert cmp x [] = Inr [x]"
| "sort_insert cmp x (y # ys) =
     (case cmp x y of
        Inl e \<Rightarrow> Inl e
      | Inr c \<Rightarrow>
          if c \<le> 0 then Inr (x # y # ys)
          else (case sort_insert cmp x ys of Inl e \<Rightarrow> Inl e | Inr zs \<Rightarrow> Inr (y # zs)))"

fun array_sort :: "('a \<Rightarrow> 'a \<Rightarrow> error + int) \<Rightarrow> 'a list \<Rightarrow> error + 'a list" where
  "array_sort cmp [] = Inr []"
| "array_sort cmp (x # xs) =
     (case array_sort cmp xs of Inl e \<Rightarrow> Inl e | Inr ys \<Rightarrow> sort_insert cmp x ys)"

section \<open>The query orchestrator\<close>

text \<open>
  \<^verbatim>\<open>catch (err) { reject(new InsightError(err.message)); }\<close>: whatever is thrown inside the
  outer \<^verbatim>\<open>try\<close> of \<^verbatim>\<open>performQuery\<close> is rejected as an \<^verbatim>\<open>InsightError\<close> with the same
  message.
\<close>

definition caught :: "error + 'a \<Rightarrow> error + 'a" where
  "caught r = (case r of Inl e \<Rightarrow> Inl (InsightError (message e)) | Inr x \<Rightarrow> Inr x)"

text \<open>\<^verbatim>\<open>query["OPTIONS"]["COLUMNS"][0].split("_")[0]\<close>.\<close>

definition extractId :: "json \<Rightarrow> error + string" where
  "extractId query =
     (case get_prop (Some query) ''OPTIONS'' of
        Inl e \<Rightarrow> Inl e
      | Inr options \<Rightarrow>
          (case get_prop options ''COLUMNS'' of
             Inl e \<Rightarrow> Inl e
           | Inr columns \<Rightarrow>
               (case first_elem columns of
                  Inl e \<Rightarrow> Inl e
                | Inr column \<Rightarrow>
                    (case split_of column 0 of
                       Inl e \<Rightarrow> Inl e
                     | Inr None \<Rightarrow> Inl (TypeError ''Cannot read property of undefined'')
                     | Inr (Some ident) \<Rightarrow> Inr ident))))"

text \<open>
  \<^verbatim>\<open>columns.includes(order)\<close>: on an array the membership test, on a string the search for
  the text of \<open>order\<close>; no other value has the method.
\<close>

definition columns_include :: "engine \<Rightarrow> json option \<Rightarrow> json option \<Rightarrow> error + bool" where
  "columns_include eng columns order =
     (case columns of
        Some (JArr cols) \<Rightarrow>
          Inr (case order of None \<Rightarrow> False | Some v \<Rightarrow> array_includes cols v)
      | Some (JStr s) \<Rightarrow>
          (let t = (case order of None \<Rightarrow> ''undefined'' | Some v \<Rightarrow> ToString eng v)
           in Inr (list_ex (\<lambda>k. take (length t) (drop k s) = t) [0..<Suc (length s)]))
      | _ \<Rightarrow> Inl (TypeError ''includes is not a function''))"

text \<open>
  The block of \<^verbatim>\<open>performQuery\<close> that checks the keys of \<^verbatim>\<open>OPTIONS\<close> and sorts. A rejection is
  \<open>Inl (Inl e)\<close>; a throw (left to the outer \<^verbatim>\<open>catch\<close>) is \<open>Inl (Inr e)\<close>.
\<close>

definition orderResults ::
  "engine \<Rightarrow> json option \<Rightarrow> course list \<Rightarrow> (error + error) + course list" where
  "orderResults eng options results =
     (case (case options of
              None \<Rightarrow> Inl (TypeError ''Cannot convert undefined or null to object'')
            | Some opts \<Rightarrow> Object_keys opts) of
        Inl e \<Rightarrow> Inl (Inr e)
      | Inr optionKeys \<Rightarrow>
          if ''ORDER'' \<in> set optionKeys then
            if length optionKeys > 2 then Inl (Inl (InsightError ''Invalid key in column''))
            else
              (case get_prop options ''COLUMNS'' of
                 Inl e \<Rightarrow> Inl (Inr e)
               | Inr columns \<Rightarrow>
                   (case get_prop options ''ORDER'' of
                      Inl e \<Rightarrow> Inl (Inr e)
                    | Inr order \<Rightarrow>
                        (case columns_include eng columns order of
                           Inl e \<Rightarrow> Inl (Inr e)
                         | Inr False \<Rightarrow>
                             Inl (Inl (InsightError ''Value of ORDER not exists in COLUMNS''))
                         | Inr True \<Rightarrow>
                             (case array_sort (\<lambda>a b. compareResults eng a b options) results of
                                Inl e \<Rightarrow> Inl (Inr e)
                              | Inr results' \<Rightarrow> Inr results'))))
          else if length optionKeys > 1 then Inl (Inl (InsightError ''Invalid key in column''))
          else Inr results)"

text \<open>
  \<^verbatim>\<open>performQuery\<close>. The promise is the result: \<open>Inr\<close> the rows it resolves with, \<open>Inl\<close> the
  error it rejects with. (\<^verbatim>\<open>Object.keys(query)\<close> runs before the promise is made; its throw on
  \<^verbatim>\<open>null\<close> is the result \<open>Inl\<close> as well.) \<open>queryResults\<close> is the function up to the sorted
  rows; \<open>performQuery\<close> adds its last step, the guard on their number.
\<close>

definition queryResults :: "engine \<Rightarrow> Datasets \<Rightarrow> json \<Rightarrow> error + course list" where
  "queryResults eng st query =
     (case Object_keys query of
        Inl e \<Rightarrow> Inl e
      | Inr queryKeys \<Rightarrow>
          if \<not> (length queryKeys = 2) \<or> ''OPTIONS'' \<notin> set queryKeys \<or> ''WHERE'' \<notin> set queryKeys
          then Inl (InsightError ''JSON has more keys than excepted'')
          else
            (case caught (extractId query) of
               Inl e \<Rightarrow> Inl e
             | Inr ident \<Rightarrow>
                 if \<not> containsDataset st ident then Inl (InsightError ''Dataset not exists'')
                 else
                   (case caught (case get_prop (Some query) ''WHERE'' of
                                   Inl e \<Rightarrow> Inl e
                                 | Inr None \<Rightarrow>
                                     Inl (TypeError ''Cannot convert undefined or null to object'')
                                 | Inr (Some filt) \<Rightarrow> findCourses eng st filt ident) of
                      Inl e \<Rightarrow> Inl e
                    | Inr courseSet \<Rightarrow>
                        (case caught (case get_prop (Some query) ''OPTIONS'' of
                                        Inl e \<Rightarrow> Inl e
                                      | Inr options \<Rightarrow>
                                          (case get_prop options ''COLUMNS'' of
                                             Inl e \<Rightarrow> Inl e
                                           | Inr columns \<Rightarrow> Inr (options, columns))) of
                           Inl e \<Rightarrow> Inl e
                         | Inr (options, columns) \<Rightarrow>
                             (case selectColumns eng st courseSet columns ident of
                                Inl e \<Rightarrow> Inl e
                              | Inr results \<Rightarrow>
                                  (case orderResults eng options results of
                                     Inl (Inl e) \<Rightarrow> Inl e
                                   | Inl (Inr e) \<Rightarrow> Inl (InsightError (message e))
                                   | Inr results' \<Rightarrow> Inr results'))))))"

definition performQuery :: "engine \<Rightarrow> Datasets \<Rightarrow> json \<Rightarrow> error + course list" where
  "performQuery eng st query =
     (case queryResults eng st query of
        Inl e \<Rightarrow> Inl e
      | Inr results \<Rightarrow>
          if length results > 5000 then Inl ResultTooLargeError else Inr results)"

section \<open>Adding a dataset\<close>

text \<open>\<^verbatim>\<open>isIdValid(id: any)\<close>.\<close>

definition isIdValid :: "json \<Rightarrow> bool" where
  "isIdValid ident =
     (case ident of
        JStr s \<Rightarrow> if CHR ''_'' \<in> set s then False else list_ex (\<lambda>c. c \<noteq> CHR '' '') s
      | _ \<Rightarrow> False)"

text \<open>
  The body of the loop over the extracted course lists: a list one of whose entries fails
  to convert is skipped whole.
\<close>

fun convertAll :: "('raw \<Rightarrow> error + course) \<Rightarrow> 'raw list \<Rightarrow> error + course list" where
  "convertAll convertData [] = Inr []"
| "convertAll convertData (r # rs) =
     (case convertData r of
        Inl e \<Rightarrow> Inl e
      | Inr c \<Rightarrow>
          (case convertAll convertData rs of Inl e \<Rightarrow> Inl e | Inr cs \<Rightarrow> Inr (c # cs)))"

fun collect :: "('raw \<Rightarrow> error + course) \<Rightarrow> 'raw list list \<Rightarrow> dataset" where
  "collect convertData [] = []"
| "collect convertData (courseList # rest) =
     (case convertAll convertData courseList of
        Inl e \<Rightarrow> collect convertData rest
      | Inr temp \<Rightarrow> temp @ collect convertData rest)"

text \<open>
  \<^verbatim>\<open>addDataset\<close>, as a step on the store: the result of the promise and the store after
  it. Reading the archive (\<^verbatim>\<open>JSZip.loadAsync\<close> followed by \<^verbatim>\<open>DataUtils.extractZip\<close>) and
  \<^verbatim>\<open>DataUtils.convertData\<close> belong to the ingestion collaborator and are parameters.
\<close>

definition addDataset ::
  "(string \<Rightarrow> error + 'raw list list) \<Rightarrow> ('raw \<Rightarrow> error + course) \<Rightarrow>
   Datasets \<Rightarrow> string \<Rightarrow> string \<Rightarrow> InsightDatasetKind \<Rightarrow> (error + string list) \<times> Datasets" where
  "addDataset extractZip convertData st ident content kind =
     (if \<not> isIdValid (JStr ident) then (Inl (InsightError ''Field id format not valid''), st)
      else if containsDataset st ident
      then (Inl (InsightError ''Cannot add with duplicated id''), st)
      else if kind \<noteq> Courses
      then (Inl (InsightError ''Invalid or not implemented dataset kind''), st)
      else
        (case extractZip content of
           Inl e \<Rightarrow> (Inl (InsightError (message e)), st)
         | Inr courseLists \<Rightarrow>
             (let d = collect convertData courseLists in
              if length d = 0
              then (Inl (InsightError ''The zip must contain at least one course''), st)
              else (Inr (getIds (store_addDataset st ident d)), store_addDataset st ident d))))"

section \<open>The spec's words, and example data\<close>

text \<open>
  The validity rule of the spec for a dataset id, in the spec's words: non-empty after
  trimming, no underscore. Trimming removes the white space \<^verbatim>\<open>String.prototype.trim\<close>
  removes.
\<close>

definition whitespace :: "char \<Rightarrow> bool" where
  "whitespace c =
     (c \<in> set [CHR 0x09, CHR 0x0A, CHR 0x0B, CHR 0x0C, CHR 0x0D, CHR 0x20, CHR 0xA0])"

definition trim :: "string \<Rightarrow> string" where
  "trim s = rev (dropWhile whitespace (rev (dropWhile whitespace s)))"

definition spec_id_valid :: "string \<Rightarrow> bool" where
  "spec_id_valid s = (trim s \<noteq> [] \<and> CHR ''_'' \<notin> set s)"

text \<open>
  The code points of a string: a high surrogate followed by a low surrogate is one code
  point above 65535; every other code unit is its own code point.
\<close>

fun code_points :: "jstring \<Rightarrow> nat list" where
  "code_points [] = []"
| "code_points [h] = [h]"
| "code_points (h # l # rest) =
     (if 0xD800 \<le> h \<and> h \<le> 0xDBFF \<and> 0xDC00 \<le> l \<and> l \<le> 0xDFFF
      then (0x10000 + (h - 0xD800) * 0x400 + (l - 0xDC00)) # code_points rest
      else h # code_points (l # rest))"

text \<open>
  The order of the spec on the values of the \<open>ORDER\<close> column, in the spec's words: numbers
  by magnitude; strings by the sequence of their code points, lexicographically, a proper
  prefix before the longer string.
\<close>

definition spec_le :: "scalar option \<Rightarrow> scalar option \<Rightarrow> bool" where
  "spec_le a b =
     (case (a, b) of
        (Some (Num x), Some (Num y)) \<Rightarrow> x \<le> y
      | (Some (Str s), Some (Str t)) \<Rightarrow> lexordp_eq (code_points s) (code_points t)
      | _ \<Rightarrow> False)"

text \<open>The same order with the strings compared by the sequence of their code units.\<close>

definition unit_le :: "scalar option \<Rightarrow> scalar option \<Rightarrow> bool" where
  "unit_le a b =
     (case (a, b) of
        (Some (Num x), Some (Num y)) \<Rightarrow> x \<le> y
      | (Some (Str s), Some (Str t)) \<Rightarrow> lexordp_eq s t
      | _ \<Rightarrow> False)"

text \<open>
  A store whose dataset has two records: the department of the first is the one code unit
  U+FF5E, that of the second the surrogate pair of U+1F600.
\<close>

definition astral_store :: Datasets where
  "astral_store =
     [(''courses'', [[(''dept'', Str [0xFF5E])], [(''dept'', Str [0xD83D, 0xDE00])]])]"


text \<open>Two queries for all records, ordered by a numeric and by a string column.\<close>

definition avg_order_query :: json where
  "avg_order_query =
     JObj [(''WHERE'', JObj []),
           (''OPTIONS'', JObj [(''COLUMNS'', JArr [JStr ''courses_avg'']),
                               (''ORDER'', JStr ''courses_avg'')])]"

definition dept_order_query :: json where
  "dept_order_query =
     JObj [(''WHERE'', JObj []),
           (''OPTIONS'', JObj [(''COLUMNS'', JArr [JStr ''courses_dept'']),
                               (''ORDER'', JStr ''courses_dept'')])]"

text \<open>
  Two queries that break the rule on the keys of \<open>OPTIONS\<close>: a key besides \<open>COLUMNS\<close> and
  \<open>ORDER\<close>, and an \<open>ORDER\<close> that is not among the columns.
\<close>

definition extra_key_query :: json where
  "extra_key_query =
     JObj [(''WHERE'', JObj []),
           (''OPTIONS'', JObj [(''COLUMNS'', JArr [JStr ''courses_avg'']),
                               (''LIMIT'', JNum 1)])]"

definition stray_order_query :: json where
  "stray_order_query =
     JObj [(''WHERE'', JObj []),
           (''OPTIONS'', JObj [(''COLUMNS'', JArr [JStr ''courses_avg'']),
                               (''ORDER'', JStr ''courses_dept'')])]"

text \<open>
  Two queries with a column that names no field of the records: one whose filter matches no
  record, one for all records.
\<close>

definition unknown_column_query :: json where
  "unknown_column_query =
     JObj [(''WHERE'', JObj [(''GT'', JObj [(''courses_avg'', JNum 100)])]),
           (''OPTIONS'', JObj [(''COLUMNS'', JArr [JStr ''courses_avg'', JStr ''courses_nope''])])]"

definition unknown_column_all_query :: json where
  "unknown_column_all_query =
     JObj [(''WHERE'', JObj []),
           (''OPTIONS'', JObj [(''COLUMNS'', JArr [JStr ''courses_avg'', JStr ''courses_nope''])])]"

text \<open>Two \<open>IS\<close> filters whose value has a dot, with and without a trailing star.\<close>

definition dot_prefix_filter :: json where
  "dot_prefix_filter = JObj [(''IS'', JObj [(''courses_dept'', JStr ''c.sc*'')])]"

definition dot_exact_filter :: json where
  "dot_exact_filter = JObj [(''IS'', JObj [(''courses_dept'', JStr ''c.sc'')])]"

text \<open>
  The rule of the spec for \<open>IS\<close>, in the spec's words: without a star, exact equality;
  otherwise the value is an optional leading star, characters other than the star and an
  optional trailing star, any other placement being invalid; a leading star is a suffix
  match, a trailing star a prefix match, both a substring match, of the characters between
  the stars taken literally.
\<close>

definition spec_prefix :: "jstring \<Rightarrow> jstring \<Rightarrow> bool" where
  "spec_prefix b a = (take (length b) a = b)"

definition spec_suffix :: "jstring \<Rightarrow> jstring \<Rightarrow> bool" where
  "spec_suffix b a = list_ex (\<lambda>k. drop k a = b) [0..<Suc (length a)]"

definition spec_substring :: "jstring \<Rightarrow> jstring \<Rightarrow> bool" where
  "spec_substring b a = list_ex (\<lambda>k. take (length b) (drop k a) = b) [0..<Suc (length a)]"

definition spec_IS :: "string \<Rightarrow> jstring \<Rightarrow> error + bool" where
  "spec_IS v a =
     (let body = filter (\<lambda>c. c \<noteq> CHR ''*'') v in
      if CHR ''*'' \<notin> set v then Inr (a = ascii v)
      else if v \<notin> set [CHR ''*'' # body, body @ ''*'', CHR ''*'' # body @ ''*'']
      then Inl (InsightError ''Invalid regex filter value'')
      else if hd v = CHR ''*'' \<and> last v = CHR ''*'' then Inr (spec_substring (ascii body) a)
      else if hd v = CHR ''*'' then Inr (spec_suffix (ascii body) a)
      else Inr (spec_prefix (ascii body) a))"

text \<open>Whether an evaluation succeeded, and the index set it returned.\<close>

definition isOK :: "error + 'a \<Rightarrow> bool" where
  "isOK r = (case r of Inl e \<Rightarrow> False | Inr x \<Rightarrow> True)"

definition indices :: "error + nat list \<Rightarrow> nat set" where
  "indices r = (case r of Inl e \<Rightarrow> {} | Inr s \<Rightarrow> set s)"

definition is_NotFoundError :: "error + 'a \<Rightarrow> bool" where
  "is_NotFoundError r = (case r of Inl (NotFoundError m) \<Rightarrow> True | _ \<Rightarrow> False)"

text \<open>
  An engine for the examples; none of them reaches one of its conversions. The store of the
  examples holds one dataset, \<open>courses\<close>.
\<close>

definition example_engine :: engine where
  "example_engine =
     \<lparr>number_to_string = (\<lambda>x. ''0''),
      string_to_number = (\<lambda>s. None),
      regexp_test = (\<lambda>source subject. Inl (SyntaxError ''Invalid regular expression''))\<rparr>"

definition example_courses :: dataset where
  "example_courses =
     [[(''dept'', Str (ascii ''cpsc'')), (''avg'', Num 95)],
      [(''dept'', Str (ascii ''math'')), (''avg'', Num 70)],
      [(''dept'', Str (ascii ''cpsc310'')), (''avg'', Num 90)]]"

definition example_store :: Datasets where
  "example_store = [(''courses'', example_courses)]"

definition gt80_filter :: json where
  "gt80_filter = JObj [(''GT'', JObj [(''courses_avg'', JNum 80)])]"

definition is_cpsc_filter :: json where
  "is_cpsc_filter = JObj [(''IS'', JObj [(''courses_dept'', JStr ''cpsc'')])]"

text \<open>A query whose \<open>WHERE\<close> is an empty array.\<close>

definition array_where_query :: json where
  "array_where_query =
     JObj [(''WHERE'', JArr []), (''OPTIONS'', JObj [(''COLUMNS'', JArr [JStr ''courses_avg''])])]"

text \<open>A query for a dataset that is not loaded.\<close>

definition missing_query :: json where
  "missing_query =
     JObj [(''WHERE'', JObj []), (''OPTIONS'', JObj [(''COLUMNS'', JArr [JStr ''rooms_seats''])])]"



section \<open>Code units\<close>

lemma ascii_eq_iff [simp]: "ascii s = ascii t \<longleftrightarrow> s = t"
  unfolding ascii_def using inj_of_char [where 'a = nat] by (simp add: inj_eq)

lemma length_ascii [simp]: "length (ascii s) = length s"
  by (simp add: ascii_def)

lemma ascii_Nil [simp]: "ascii [] = []"
  by (simp add: ascii_def)

section \<open>Adding a dataset: the kind\<close>

text \<open>
  Claim C10. For every call whose kind is not \<open>Courses\<close> (\<open>Rooms\<close> included), \<open>addDataset\<close>
  rejects with an error and leaves the store as it was, and it does so without reading the
  content: the outcome is the same for any content and any behaviour of the ingestion.
\<close>

theorem addDataset_other_kind_rejected:
  assumes "kind \<noteq> Courses"
  shows "(\<exists>e. addDataset extractZip convertData st ident content kind = (Inl e, st)) \<and>
         addDataset extractZip convertData st ident content kind =
         addDataset extractZip' convertData' st ident content' kind"
  using assms by (simp add: addDataset_def)

theorem addDataset_other_kind_rejected_witness:
  "Rooms \<noteq> Courses \<and>
   addDataset (\<lambda>c. Inr [[c]]) (\<lambda>r. Inr [(''dept'', Str (ascii r))]) [] ''rooms'' ''zip'' Rooms =
     (Inl (InsightError ''Invalid or not implemented dataset kind''), [])"
proof -
  have kind: "Rooms \<noteq> Courses" by simp
  from addDataset_other_kind_rejected [OF kind, of "\<lambda>c. Inr [[c]]" "\<lambda>r. Inr [(''dept'', Str (ascii r))]"
      "[]" "''rooms''" "''zip''"]
  show ?thesis by (simp add: addDataset_def isIdValid_def containsDataset_def)
qed

section \<open>Adding a dataset: the id\<close>

lemma isIdValid_iff:
  "isIdValid (JStr s) \<longleftrightarrow> CHR ''_'' \<notin> set s \<and> \<not> set s \<subseteq> {CHR '' ''}"
  by (auto simp: isIdValid_def list_ex_iff)

text \<open>
  What \<open>addDataset\<close> does with an id (the spec's \<open>InvalidIdError\<close> and \<open>DuplicateError\<close> are
  \<^verbatim>\<open>InsightError\<close>s with the messages below): an id with an underscore, the empty id and an
  id of space characters only are rejected as invalid; an id that passes \<open>isIdValid\<close> and is
  in the store is rejected as a duplicate; and whenever the call resolves or changes the
  store, the id passed \<open>isIdValid\<close> and was not in the store.
\<close>

lemma addDataset_id_rules:
  "(CHR ''_'' \<in> set ident \<or> set ident \<subseteq> {CHR '' ''} \<longrightarrow>
      addDataset extractZip convertData st ident content kind =
        (Inl (InsightError ''Field id format not valid''), st)) \<and>
   (isIdValid (JStr ident) \<and> containsDataset st ident \<longrightarrow>
      addDataset extractZip convertData st ident content kind =
        (Inl (InsightError ''Cannot add with duplicated id''), st)) \<and>
   ((\<exists>ids. fst (addDataset extractZip convertData st ident content kind) = Inr ids) \<or>
    snd (addDataset extractZip convertData st ident content kind) \<noteq> st \<longrightarrow>
      isIdValid (JStr ident) \<and> \<not> containsDataset st ident)"
  by (auto simp: addDataset_def isIdValid_iff Let_def split: sum.splits if_splits)

text \<open>
  Claim C9 says that \<open>addDataset\<close> fails with \<open>InvalidIdError\<close> for every id that is empty or
  all white space after trimming. The loop of \<open>isIdValid\<close> that looks for a character of
  the id that is not blank compares with the space character only: the id made of one tab
  is empty after trimming, \<open>isIdValid\<close> accepts it, and \<open>addDataset\<close> resolves and adds a
  dataset under it.
\<close>

theorem addDataset_tab_id_accepted:
  "\<not> spec_id_valid [CHR 0x09] \<and> isIdValid (JStr [CHR 0x09]) \<and>
   addDataset (\<lambda>c. Inr [[c]]) (\<lambda>r. Inr [(''dept'', Str (ascii r))]) [] [CHR 0x09] ''zip''
       Courses =
     (Inr [[CHR 0x09]], [([CHR 0x09], [[(''dept'', Str (ascii ''zip''))]])])"
  by (simp add: spec_id_valid_def trim_def whitespace_def addDataset_def isIdValid_def
      containsDataset_def getIds_def store_addDataset_def)

section \<open>The dataset of a query\<close>

lemma split_nonempty: "split c s \<noteq> []"
  by (induction s) (auto split: list.splits)

lemma hd_split: "hd (split c s) = takeWhile (\<lambda>x. x \<noteq> c) s"
  by (induction s) (auto split: list.splits simp: split_nonempty)

lemma split_at_0: "split_at s 0 = Some (takeWhile (\<lambda>x. x \<noteq> CHR ''_'') s)"
  using split_nonempty [of "CHR ''_''" s] hd_split [of "CHR ''_''" s]
  by (cases "split (CHR ''_'') s") (auto simp: split_at_def Let_def)

text \<open>
  Claim C4, as the code has it. For a query with exactly the keys \<open>WHERE\<close> and \<open>OPTIONS\<close>
  whose first entry of \<open>OPTIONS.COLUMNS\<close> is a string, the dataset id is the part of that
  string before its first underscore; when no dataset of that id is loaded, \<open>performQuery\<close>
  rejects with the \<^verbatim>\<open>InsightError\<close> \<open>Dataset not exists\<close>.
\<close>

theorem performQuery_dataset_id:
  assumes "Object_keys query = Inr queryKeys" "length queryKeys = 2"
    "''OPTIONS'' \<in> set queryKeys" "''WHERE'' \<in> set queryKeys"
    "get_prop (Some query) ''OPTIONS'' = Inr options"
    "get_prop options ''COLUMNS'' = Inr columns"
    "first_elem columns = Inr (Some (JStr column))"
  shows "extractId query = Inr (takeWhile (\<lambda>x. x \<noteq> CHR ''_'') column) \<and>
         (\<not> containsDataset st (takeWhile (\<lambda>x. x \<noteq> CHR ''_'') column) \<longrightarrow>
            performQuery eng st query = Inl (InsightError ''Dataset not exists''))"
  using assms
  by (simp add: extractId_def split_of_def split_at_0 performQuery_def queryResults_def caught_def)

theorem performQuery_dataset_id_witness:
  "extractId missing_query = Inr ''rooms'' \<and> \<not> containsDataset example_store ''rooms'' \<and>
   performQuery example_engine example_store missing_query =
     Inl (InsightError ''Dataset not exists'')"
  using performQuery_dataset_id [of missing_query "[''WHERE'', ''OPTIONS'']"
      "Some (JObj [(''COLUMNS'', JArr [JStr ''rooms_seats''])])"
      "Some (JArr [JStr ''rooms_seats''])" "''rooms_seats''" example_store example_engine]
  by (simp add: missing_query_def Object_keys_def Object_entries_def get_prop_def first_elem_def
      containsDataset_def example_store_def)

text \<open>
  Claim C4, as the spec words it, fails: the rejection for a dataset that is not loaded is
  not a \<^verbatim>\<open>NotFoundError\<close>.
\<close>

theorem performQuery_missing_dataset_counterexample:
  "\<not> containsDataset example_store ''rooms'' \<and>
   \<not> is_NotFoundError (performQuery example_engine example_store missing_query)"
  by (simp add: missing_query_def performQuery_def queryResults_def Object_keys_def
      Object_entries_def get_prop_def first_elem_def extractId_def split_of_def split_at_def
      caught_def containsDataset_def example_store_def is_NotFoundError_def)

section \<open>The result cap\<close>













section \<open>The filter evaluator: logical nodes\<close>

lemma findCoursesEach_iff:
  "findCoursesEach eng st fs ident = Inr ss \<longleftrightarrow>
   list_all2 (\<lambda>f s. findCourses eng st f ident = Inr s) fs ss"
proof
  show "findCoursesEach eng st fs ident = Inr ss \<Longrightarrow>
      list_all2 (\<lambda>f s. findCourses eng st f ident = Inr s) fs ss"
    by (induction fs arbitrary: ss) (auto split: sum.splits)
  show "list_all2 (\<lambda>f s. findCourses eng st f ident = Inr s) fs ss \<Longrightarrow>
      findCoursesEach eng st fs ident = Inr ss"
    by (induction rule: list_all2_induct) auto
qed

lemma findCoursesEach_ok:
  "(\<forall>f\<in>set fs. isOK (findCourses eng st f ident)) \<Longrightarrow> \<exists>ss. findCoursesEach eng st fs ident = Inr ss"
  by (induction fs) (auto simp: isOK_def split: sum.splits)

lemma indices_image:
  "list_all2 (\<lambda>f s. g f = Inr s) fs ss \<Longrightarrow> (\<lambda>f. indices (g f)) ` set fs = set ` set ss"
  by (induction rule: list_all2_induct) (auto simp: indices_def)

lemma set_intersecion: "ss \<noteq> [] \<Longrightarrow> set (intersecion ss) = (\<Inter>s\<in>set ss. set s)"
  by (cases ss) (auto simp: list_all_iff)

lemma set_unionSets: "set (unionSets ss) = (\<Union>s\<in>set ss. set s)"
  by (simp add: unionSets_def)

lemma set_complementary: "set (complementary a u) = set u - set a"
  by (auto simp: complementary_def)

lemma findCourses_logical:
  assumes "findCoursesEach eng st ops ident = Inr ss" "ops \<noteq> []"
  shows "findCourses eng st (JObj [(c, JArr ops)]) ident =
     (if c = ''OR'' then Inr (unionSets ss) else if c = ''AND'' then Inr (intersecion ss)
      else Inl (InsightError ''Invalid comparator when finding courses''))"
proof -
  from assms have "ss \<noteq> []" by (auto simp: findCoursesEach_iff)
  moreover from assms obtain s where "findCourses eng st (hd ops) ident = Inr s"
    by (cases ops) (auto split: sum.splits)
  then obtain d where "getDataset st ident = Inr d"
    by (subst (asm) findCourses.simps) (auto split: sum.splits)
  ultimately show ?thesis using assms
    by (simp add: findCourses.simps [of _ _ "JObj [(c, JArr ops)]"] Object_entries_def)
qed

lemma findCourses_array: "\<exists>e. findCourses eng st (JArr xs) ident = Inl e"
proof (cases xs)
  case Nil
  show ?thesis unfolding Nil
    by (simp add: findCourses.simps [of _ _ "JArr []"] Object_entries_def split: sum.splits)
next
  case (Cons x ys)
  show ?thesis
  proof (cases ys)
    case Nil
    with Cons have xs: "xs = [x]" by simp
    show ?thesis unfolding xs
      by (simp add: findCourses.simps [of _ _ "JArr [x]"] Object_entries_def digit_char_def
          filterCourses_def mapping_def Let_def
          split: sum.splits json.splits list.splits prod.splits)
  next
    case (Cons y zs)
    with \<open>xs = x # ys\<close> have xs: "xs = x # y # zs" by simp
    show ?thesis unfolding xs
      by (simp add: findCourses.simps [of _ _ "JArr (x # y # zs)"] Object_entries_def upt_rec
          split: sum.splits)
  qed
qed

lemma findCourses_not:
  assumes "findCourses eng st f ident = Inr s" "getDataset st ident = Inr d"
  shows "findCourses eng st (JObj [(''NOT'', f)]) ident = Inr (complementary s [0..<length d])"
proof -
  have "f \<noteq> JArr xs" for xs
    using assms(1) findCourses_array [of eng st xs ident] by auto
  with assms show ?thesis
    by (subst findCourses.simps, cases f) (auto simp: Object_entries_def)
qed

lemma example_dataset: "getDataset example_store ''courses'' = Inr example_courses"
  by (simp add: getDataset_def example_store_def)

lemma find_gt80: "findCourses example_engine example_store gt80_filter ''courses'' = Inr [0, 2]"
  unfolding gt80_filter_def
  by (subst findCourses.simps)
     (simp add: example_dataset Object_entries_def qualified_name_def split_at_def
        filterCourses_def mapping_def example_courses_def field_def GT_def scalar_to_number_def)

lemma find_is_cpsc: "findCourses example_engine example_store is_cpsc_filter ''courses'' = Inr [0]"
  unfolding is_cpsc_filter_def
  by (subst findCourses.simps)
     (simp add: example_dataset Object_entries_def qualified_name_def split_at_def
        filterCourses_def mapping_def example_courses_def field_def IS_def)

text \<open>
  Claim C1. For a non-empty sequence of operands that all evaluate, \<open>AND\<close> evaluates to the
  intersection of the operands' index sets and \<open>OR\<close> to their union; for a filter that
  evaluates, \<open>NOT\<close> evaluates to the complement of its index set in the indices
  \<open>0..n-1\<close> of the dataset. (The set operations are those of \<^verbatim>\<open>SetUtils\<close>, modelled from
  the spec.)
\<close>

theorem logical_filters:
  "(ops \<noteq> [] \<and> (\<forall>f\<in>set ops. isOK (findCourses eng st f ident)) \<longrightarrow>
      isOK (findCourses eng st (JObj [(''AND'', JArr ops)]) ident) \<and>
      indices (findCourses eng st (JObj [(''AND'', JArr ops)]) ident) =
        (\<Inter>f\<in>set ops. indices (findCourses eng st f ident)) \<and>
      isOK (findCourses eng st (JObj [(''OR'', JArr ops)]) ident) \<and>
      indices (findCourses eng st (JObj [(''OR'', JArr ops)]) ident) =
        (\<Union>f\<in>set ops. indices (findCourses eng st f ident))) \<and>
   (isOK (findCourses eng st f ident) \<and> getDataset st ident = Inr d \<longrightarrow>
      isOK (findCourses eng st (JObj [(''NOT'', f)]) ident) \<and>
      indices (findCourses eng st (JObj [(''NOT'', f)]) ident) =
        {0..<length d} - indices (findCourses eng st f ident))"
proof (intro conjI impI)
  assume a: "ops \<noteq> [] \<and> (\<forall>f\<in>set ops. isOK (findCourses eng st f ident))"
  then obtain ss where ss: "findCoursesEach eng st ops ident = Inr ss"
    using findCoursesEach_ok by blast
  then have all2: "list_all2 (\<lambda>f s. findCourses eng st f ident = Inr s) ops ss"
    by (simp add: findCoursesEach_iff)
  then have ne: "ss \<noteq> []" using a by auto
  have img: "(\<lambda>f. indices (findCourses eng st f ident)) ` set ops = set ` set ss"
    using indices_image [of "\<lambda>f. findCourses eng st f ident", OF all2] .
  have "(\<Inter>f\<in>set ops. indices (findCourses eng st f ident)) = (\<Inter>s\<in>set ss. set s)"
    using img by simp
  moreover have "(\<Union>f\<in>set ops. indices (findCourses eng st f ident)) = (\<Union>s\<in>set ss. set s)"
    using img by simp
  ultimately show
    "isOK (findCourses eng st (JObj [(''AND'', JArr ops)]) ident)"
    "indices (findCourses eng st (JObj [(''AND'', JArr ops)]) ident) =
        (\<Inter>f\<in>set ops. indices (findCourses eng st f ident))"
    "isOK (findCourses eng st (JObj [(''OR'', JArr ops)]) ident)"
    "indices (findCourses eng st (JObj [(''OR'', JArr ops)]) ident) =
        (\<Union>f\<in>set ops. indices (findCourses eng st f ident))"
    using a ne
    by (simp_all add: findCourses_logical [OF ss] isOK_def indices_def set_intersecion set_unionSets)
next
  assume a: "isOK (findCourses eng st f ident) \<and> getDataset st ident = Inr d"
  then obtain s where s: "findCourses eng st f ident = Inr s"
    by (auto simp: isOK_def split: sum.splits)
  with a show "isOK (findCourses eng st (JObj [(''NOT'', f)]) ident)"
    "indices (findCourses eng st (JObj [(''NOT'', f)]) ident) =
        {0..<length d} - indices (findCourses eng st f ident)"
    by (simp_all add: findCourses_not [OF s] isOK_def indices_def set_complementary)
qed


theorem logical_filters_witness:
  "indices (findCourses example_engine example_store
      (JObj [(''AND'', JArr [gt80_filter, is_cpsc_filter])]) ''courses'') = {0} \<and>
   indices (findCourses example_engine example_store
      (JObj [(''OR'', JArr [gt80_filter, is_cpsc_filter])]) ''courses'') = {0, 2} \<and>
   indices (findCourses example_engine example_store
      (JObj [(''NOT'', gt80_filter)]) ''courses'') = {1}"
proof -
  note t = logical_filters [of "[gt80_filter, is_cpsc_filter]" example_engine example_store
      "''courses''" gt80_filter example_courses]
  have ok: "[gt80_filter, is_cpsc_filter] \<noteq> [] \<and>
      (\<forall>f\<in>set [gt80_filter, is_cpsc_filter].
         isOK (findCourses example_engine example_store f ''courses''))"
    by (simp add: find_gt80 find_is_cpsc isOK_def)
  have ok': "isOK (findCourses example_engine example_store gt80_filter ''courses'') \<and>
      getDataset example_store ''courses'' = Inr example_courses"
    by (simp add: find_gt80 isOK_def example_dataset)
  have u: "{0..<length example_courses} - {0, 2} = {1}"
    by (auto simp: example_courses_def)
  from t [THEN conjunct1, THEN mp, OF ok]
  have 1: "indices (findCourses example_engine example_store
      (JObj [(''AND'', JArr [gt80_filter, is_cpsc_filter])]) ''courses'') = {0}"
    and 2: "indices (findCourses example_engine example_store
      (JObj [(''OR'', JArr [gt80_filter, is_cpsc_filter])]) ''courses'') = {0, 2}"
    by (simp_all add: find_gt80 find_is_cpsc indices_def)
  from t [THEN conjunct2, THEN mp, OF ok']
  have 3: "indices (findCourses example_engine example_store
      (JObj [(''NOT'', gt80_filter)]) ''courses'') = {1}"
    by (simp add: find_gt80 indices_def u)
  from 1 2 3 show ?thesis by simp
qed

section \<open>The filter evaluator: the empty filter\<close>

lemma findCourses_empty:
  "getDataset st ident = Inr d \<Longrightarrow> findCourses eng st (JObj []) ident = Inr [0..<length d]"
  by (subst findCourses.simps) (simp add: Object_entries_def)

lemma findCourses_no_keys:
  assumes "getDataset st ident = Inr d" "Object_keys filt = Inr []" "filt \<noteq> JObj []"
  shows "findCourses eng st filt ident = Inl (InsightError ''WHERE must be an object'')"
proof -
  from assms(2) have e: "Object_entries filt = Inr []"
    by (auto simp: Object_keys_def split: sum.splits)
  with assms(3) have "\<not> stringify_has_brace filt"
    by (cases filt) (auto simp: Object_entries_def)
  with assms(1) e show ?thesis
    by (subst findCourses.simps) simp
qed

text \<open>
  Claim C2. Against a loaded dataset of \<open>n\<close> records the empty object evaluates to all
  indices \<open>0..n-1\<close>, at the top and as an operand of \<open>AND\<close> or \<open>OR\<close>; a node without keys
  that is not the empty object fails with the \<^verbatim>\<open>InsightError\<close> \<open>WHERE must be an object\<close>
  (the spec's \<open>ShapeError\<close>), and so does \<open>performQuery\<close> when that node is its \<open>WHERE\<close>.
\<close>

theorem empty_filter_matches_all:
  assumes "getDataset st ident = Inr d"
  shows "findCourses eng st (JObj []) ident = Inr [0..<length d] \<and>
    findCourses eng st (JObj [(''AND'', JArr [JObj []])]) ident = Inr [0..<length d] \<and>
    findCourses eng st (JObj [(''OR'', JArr [JObj []])]) ident = Inr [0..<length d] \<and>
    (\<forall>ops sets i. findCoursesEach eng st ops ident = Inr sets \<and> i < length ops \<and> ops ! i = JObj []
        \<longrightarrow> sets ! i = [0..<length d]) \<and>
    (\<forall>filt. Object_keys filt = Inr [] \<and> filt \<noteq> JObj [] \<longrightarrow>
        findCourses eng st filt ident = Inl (InsightError ''WHERE must be an object'')) \<and>
    (\<forall>query queryKeys filt.
        Object_keys query = Inr queryKeys \<and> length queryKeys = 2 \<and>
        ''OPTIONS'' \<in> set queryKeys \<and> ''WHERE'' \<in> set queryKeys \<and>
        extractId query = Inr ident \<and> get_prop (Some query) ''WHERE'' = Inr (Some filt) \<and>
        Object_keys filt = Inr [] \<and> filt \<noteq> JObj [] \<longrightarrow>
        performQuery eng st query = Inl (InsightError ''WHERE must be an object''))"
proof (intro conjI allI impI)
  show top: "findCourses eng st (JObj []) ident = Inr [0..<length d]"
    using assms by (rule findCourses_empty)
  have each: "findCoursesEach eng st [JObj []] ident = Inr [[0..<length d]]"
    by (simp add: top)
  show "findCourses eng st (JObj [(''AND'', JArr [JObj []])]) ident = Inr [0..<length d]"
    by (simp add: findCourses_logical [OF each])
  show "findCourses eng st (JObj [(''OR'', JArr [JObj []])]) ident = Inr [0..<length d]"
    by (simp add: findCourses_logical [OF each] unionSets_def distinct_remdups_id)
next
  fix ops sets i
  assume "findCoursesEach eng st ops ident = Inr sets \<and> i < length ops \<and> ops ! i = JObj []"
  then have "list_all2 (\<lambda>f s. findCourses eng st f ident = Inr s) ops sets" "i < length ops"
    "ops ! i = JObj []"
    by (simp_all add: findCoursesEach_iff)
  then have "findCourses eng st (JObj []) ident = Inr (sets ! i)"
    by (auto simp: list_all2_conv_all_nth)
  then show "sets ! i = [0..<length d]"
    using findCourses_empty [OF assms, of eng] by simp
next
  fix filt
  assume "Object_keys filt = Inr [] \<and> filt \<noteq> JObj []"
  then show "findCourses eng st filt ident = Inl (InsightError ''WHERE must be an object'')"
    using findCourses_no_keys [OF assms] by blast
next
  fix query queryKeys filt
  assume a: "Object_keys query = Inr queryKeys \<and> length queryKeys = 2 \<and>
        ''OPTIONS'' \<in> set queryKeys \<and> ''WHERE'' \<in> set queryKeys \<and>
        extractId query = Inr ident \<and> get_prop (Some query) ''WHERE'' = Inr (Some filt) \<and>
        Object_keys filt = Inr [] \<and> filt \<noteq> JObj []"
  then have f: "findCourses eng st filt ident = Inl (InsightError ''WHERE must be an object'')"
    using findCourses_no_keys [OF assms] by blast
  from assms have "containsDataset st ident"
    by (auto simp: getDataset_def containsDataset_def split: option.splits dest: map_of_SomeD
        intro: rev_image_eqI)
  with a f show "performQuery eng st query = Inl (InsightError ''WHERE must be an object'')"
    by (simp add: performQuery_def queryResults_def caught_def)
qed

theorem empty_filter_matches_all_witness:
  "getDataset example_store ''courses'' = Inr example_courses \<and>
   findCourses example_engine example_store (JObj []) ''courses'' = Inr [0, 1, 2] \<and>
   findCourses example_engine example_store (JObj [(''AND'', JArr [JObj []])]) ''courses'' =
     Inr [0, 1, 2] \<and>
   findCoursesEach example_engine example_store [gt80_filter, JObj []] ''courses'' =
     Inr [[0, 2], [0, 1, 2]] \<and>
   findCourses example_engine example_store (JArr []) ''courses'' =
     Inl (InsightError ''WHERE must be an object'') \<and>
   performQuery example_engine example_store array_where_query =
     Inl (InsightError ''WHERE must be an object'')"
proof -
  note t = empty_filter_matches_all [OF example_dataset, of example_engine]
  have l: "[0..<length example_courses] = [0, 1, 2]"
    by (simp add: example_courses_def)
  from t have 1: "findCourses example_engine example_store (JObj []) ''courses'' = Inr [0, 1, 2]"
    by (simp add: l)
  from t have 2: "findCourses example_engine example_store (JObj [(''AND'', JArr [JObj []])])
      ''courses'' = Inr [0, 1, 2]"
    by (simp add: l)
  have 3: "findCoursesEach example_engine example_store [gt80_filter, JObj []] ''courses'' =
     Inr [[0, 2], [0, 1, 2]]"
    by (simp add: find_gt80 1)
  from t have "Object_keys (JArr []) = Inr [] \<and> JArr [] \<noteq> JObj [] \<longrightarrow>
        findCourses example_engine example_store (JArr []) ''courses'' =
          Inl (InsightError ''WHERE must be an object'')"
    by blast
  then have 4: "findCourses example_engine example_store (JArr []) ''courses'' =
          Inl (InsightError ''WHERE must be an object'')"
    by (simp add: Object_keys_def Object_entries_def)
  from t have "Object_keys array_where_query = Inr [''WHERE'', ''OPTIONS''] \<and>
        length [''WHERE'', ''OPTIONS''] = 2 \<and>
        ''OPTIONS'' \<in> set [''WHERE'', ''OPTIONS''] \<and> ''WHERE'' \<in> set [''WHERE'', ''OPTIONS''] \<and>
        extractId array_where_query = Inr ''courses'' \<and>
        get_prop (Some array_where_query) ''WHERE'' = Inr (Some (JArr [])) \<and>
        Object_keys (JArr []) = Inr [] \<and> JArr [] \<noteq> JObj [] \<longrightarrow>
        performQuery example_engine example_store array_where_query =
          Inl (InsightError ''WHERE must be an object'')"
    by blast
  then have 5: "performQuery example_engine example_store array_where_query =
          Inl (InsightError ''WHERE must be an object'')"
    by (simp add: array_where_query_def Object_keys_def Object_entries_def extractId_def
        get_prop_def first_elem_def split_of_def split_at_def)
  from example_dataset 1 2 3 4 5 show ?thesis by simp
qed

section \<open>The sorter: ascending order\<close>

lemma rule_string_le: "rule_string s t \<le> 0 \<longleftrightarrow> lexordp_eq s t"
  by (induction s t rule: rule_string.induct) auto

lemma sort_insert_set: "sort_insert cmp x ys = Inr zs \<Longrightarrow> set zs = insert x (set ys)"
proof (induction ys arbitrary: zs)
  case Nil
  then show ?case by auto
next
  case (Cons y ys)
  show ?case
  proof (cases "cmp x y")
    case (Inl e)
    with Cons.prems show ?thesis by simp
  next
    case (Inr c)
    show ?thesis
    proof (cases "c \<le> 0")
      case True
      with Inr Cons.prems show ?thesis by auto
    next
      case False
      with Inr Cons.prems obtain zs' where zs': "sort_insert cmp x ys = Inr zs'" "zs = y # zs'"
        by (simp split: sum.splits)
      from Cons.IH [OF zs'(1)] zs'(2) show ?thesis by auto
    qed
  qed
qed

lemma array_sort_set: "array_sort cmp xs = Inr ys \<Longrightarrow> set ys = set xs"
proof (induction xs arbitrary: ys)
  case Nil
  then show ?case by simp
next
  case (Cons x xs)
  then obtain ys' where ys': "array_sort cmp xs = Inr ys'" "sort_insert cmp x ys' = Inr ys"
    by (simp split: sum.splits)
  from Cons.IH [OF ys'(1)] sort_insert_set [OF ys'(2)] show ?case by simp
qed

lemma sort_insert_mset: "sort_insert cmp x ys = Inr zs \<Longrightarrow> mset zs = add_mset x (mset ys)"
proof (induction ys arbitrary: zs)
  case Nil
  then show ?case by auto
next
  case (Cons y ys)
  show ?case
  proof (cases "cmp x y")
    case (Inl e)
    with Cons.prems show ?thesis by simp
  next
    case (Inr c)
    show ?thesis
    proof (cases "c \<le> 0")
      case True
      with Inr Cons.prems show ?thesis by auto
    next
      case False
      with Inr Cons.prems obtain zs' where zs': "sort_insert cmp x ys = Inr zs'" "zs = y # zs'"
        by (simp split: sum.splits)
      from Cons.IH [OF zs'(1)] zs'(2) show ?thesis by simp
    qed
  qed
qed

lemma array_sort_mset: "array_sort cmp xs = Inr ys \<Longrightarrow> mset ys = mset xs"
proof (induction xs arbitrary: ys)
  case Nil
  then show ?case by simp
next
  case (Cons x xs)
  then obtain ys' where ys': "array_sort cmp xs = Inr ys'" "sort_insert cmp x ys' = Inr ys"
    by (simp split: sum.splits)
  from Cons.IH [OF ys'(1)] sort_insert_mset [OF ys'(2)] show ?case by simp
qed

lemma sort_insert_sorted:
  assumes cmp: "\<And>a b. a \<in> D \<Longrightarrow> b \<in> D \<Longrightarrow> \<exists>c. cmp a b = Inr c \<and> (c \<le> 0 \<longleftrightarrow> le a b)"
    and lin: "\<And>a b. a \<in> D \<Longrightarrow> b \<in> D \<Longrightarrow> le a b \<or> le b a"
    and trans: "\<And>a b c. a \<in> D \<Longrightarrow> b \<in> D \<Longrightarrow> c \<in> D \<Longrightarrow> le a b \<Longrightarrow> le b c \<Longrightarrow> le a c"
  shows "x \<in> D \<Longrightarrow> set ys \<subseteq> D \<Longrightarrow> sorted_wrt le ys \<Longrightarrow> sort_insert cmp x ys = Inr zs \<Longrightarrow>
    sorted_wrt le zs"
proof (induction ys arbitrary: zs)
  case Nil
  then show ?case by auto
next
  case (Cons y ys)
  have xD: "x \<in> D" and yD: "y \<in> D" and ysD: "set ys \<subseteq> D"
    and sy: "\<forall>z\<in>set ys. le y z" and sys: "sorted_wrt le ys"
    using Cons.prems by simp_all
  from cmp [OF xD yD] obtain c where c: "cmp x y = Inr c" "c \<le> 0 \<longleftrightarrow> le x y"
    by (elim exE conjE)
  show ?case
  proof (cases "c \<le> 0")
    case True
    with c Cons.prems(4) have zs: "zs = x # y # ys" by simp
    from True c have xy: "le x y" by simp
    have "le x z" if "z \<in> set ys" for z
    proof -
      from that ysD have zD: "z \<in> D" by (rule subsetD [rotated])
      from sy that have yz: "le y z" by (rule bspec)
      show ?thesis by (rule trans [OF xD yD zD xy yz])
    qed
    with zs xy sy sys show ?thesis by simp
  next
    case False
    with c Cons.prems(4) obtain zs' where zs': "sort_insert cmp x ys = Inr zs'" "zs = y # zs'"
      by (simp split: sum.splits)
    from False c lin [OF xD yD] have yx: "le y x" by simp
    have "sorted_wrt le zs'" by (rule Cons.IH [OF xD ysD sys zs'(1)])
    moreover have "set zs' = insert x (set ys)" using zs'(1) by (rule sort_insert_set)
    ultimately show ?thesis using zs'(2) yx sy by simp
  qed
qed

lemma array_sort_sorted:
  assumes cmp: "\<And>a b. a \<in> D \<Longrightarrow> b \<in> D \<Longrightarrow> \<exists>c. cmp a b = Inr c \<and> (c \<le> 0 \<longleftrightarrow> le a b)"
    and lin: "\<And>a b. a \<in> D \<Longrightarrow> b \<in> D \<Longrightarrow> le a b \<or> le b a"
    and trans: "\<And>a b c. a \<in> D \<Longrightarrow> b \<in> D \<Longrightarrow> c \<in> D \<Longrightarrow> le a b \<Longrightarrow> le b c \<Longrightarrow> le a c"
  shows "set xs \<subseteq> D \<Longrightarrow> array_sort cmp xs = Inr ys \<Longrightarrow> sorted_wrt le ys"
proof (induction xs arbitrary: ys)
  case Nil
  then show ?case by auto
next
  case (Cons x xs)
  then obtain ys' where ys': "array_sort cmp xs = Inr ys'" "sort_insert cmp x ys' = Inr ys"
    by (auto split: sum.splits)
  from Cons.prems have xD: "x \<in> D" and xsD: "set xs \<subseteq> D" by simp_all
  have s: "sorted_wrt le ys'" by (rule Cons.IH [OF xsD ys'(1)])
  have d: "set ys' \<subseteq> D" using array_sort_set [OF ys'(1)] xsD by simp
  show ?case
    by (rule sort_insert_sorted [of D cmp le, OF cmp lin trans xD d s ys'(2)])
qed



lemma queryResults_ordered:
  assumes "queryResults eng st query = Inr rows" "get_prop (Some query) ''OPTIONS'' = Inr options"
  shows "\<exists>ident filt courseSet columns results.
           extractId query = Inr ident \<and> get_prop (Some query) ''WHERE'' = Inr (Some filt) \<and>
           findCourses eng st filt ident = Inr courseSet \<and>
           get_prop options ''COLUMNS'' = Inr columns \<and>
           selectColumns eng st courseSet columns ident = Inr results \<and>
           orderResults eng options results = Inr rows"
proof -
  from assms(1) obtain ident where ident: "extractId query = Inr ident"
    unfolding queryResults_def
    by (cases "extractId query") (auto split: sum.splits if_splits simp: caught_def)
  from assms(1) ident obtain filt courseSet where
    filt: "get_prop (Some query) ''WHERE'' = Inr (Some filt)"
    and found: "findCourses eng st filt ident = Inr courseSet"
    unfolding queryResults_def
    by (cases "get_prop (Some query) ''WHERE''")
       (auto split: sum.splits if_splits option.splits simp: caught_def)
  from assms ident filt found obtain columns results where
    "get_prop options ''COLUMNS'' = Inr columns"
    "selectColumns eng st courseSet columns ident = Inr results"
    "orderResults eng options results = Inr rows"
    unfolding queryResults_def
    by (cases "get_prop options ''COLUMNS''")
       (auto split: sum.splits if_splits simp: caught_def)
  with ident filt found show ?thesis by blast
qed

lemma orderResults_sorts:
  assumes "orderResults eng options results = Inr rows"
    "get_prop options ''ORDER'' = Inr (Some order)"
  shows "array_sort (\<lambda>a b. compareResults eng a b options) results = Inr rows"
proof -
  from assms(2) obtain kvs where o: "options = Some (JObj kvs)" "map_of kvs ''ORDER'' = Some order"
    by (auto simp: get_prop_def split: option.splits json.splits)
  then have "''ORDER'' \<in> set (map fst kvs)"
    by (metis map_of_eq_None_iff option.distinct(1) set_map)
  with assms(1) o show ?thesis
    by (auto simp: orderResults_def Object_keys_def Object_entries_def
        split: sum.splits if_splits bool.splits)
qed

lemma performQuery_rows:
  "performQuery eng st query = Inr rows \<Longrightarrow> queryResults eng st query = Inr rows"
  by (auto simp: performQuery_def split: sum.splits if_splits)

lemma avg_order_rows:
  "performQuery example_engine example_store avg_order_query =
     Inr [[(''courses_avg'', Num 70)], [(''courses_avg'', Num 90)], [(''courses_avg'', Num 95)]]"
  by (simp add: performQuery_def queryResults_def avg_order_query_def Object_keys_def
      Object_entries_def extractId_def get_prop_def first_elem_def split_of_def split_at_def
      caught_def containsDataset_def example_store_def findCourses.simps [of _ _ "JObj []"]
      getDataset_def example_courses_def selectColumns_def iterate_def qualified_name_def
      orderResults_def columns_include_def array_includes_def compareResults_def rule_def
      scalar_to_number_def)

lemma dept_order_rows:
  "performQuery example_engine example_store dept_order_query =
     Inr [[(''courses_dept'', Str (ascii ''cpsc''))], [(''courses_dept'', Str (ascii ''cpsc310''))],
          [(''courses_dept'', Str (ascii ''math''))]]"
  by (simp add: performQuery_def queryResults_def dept_order_query_def Object_keys_def
      Object_entries_def extractId_def get_prop_def first_elem_def split_of_def split_at_def
      caught_def containsDataset_def example_store_def findCourses.simps [of _ _ "JObj []"]
      getDataset_def example_courses_def selectColumns_def iterate_def qualified_name_def
      orderResults_def columns_include_def array_includes_def compareResults_def rule_def
      scalar_to_number_def ascii_def)

lemma astral_order_rows:
  "performQuery example_engine astral_store dept_order_query =
     Inr [[(''courses_dept'', Str [0xD83D, 0xDE00])], [(''courses_dept'', Str [0xFF5E])]]"
  by (simp add: performQuery_def queryResults_def dept_order_query_def Object_keys_def
      Object_entries_def extractId_def get_prop_def first_elem_def split_of_def split_at_def
      caught_def containsDataset_def astral_store_def findCourses.simps [of _ _ "JObj []"]
      getDataset_def selectColumns_def iterate_def qualified_name_def
      orderResults_def columns_include_def array_includes_def compareResults_def rule_def
      scalar_to_number_def)

text \<open>
  Claim C8, as the code has it. When \<open>OPTIONS\<close> has an \<open>ORDER\<close> and \<open>performQuery\<close> resolves,
  the rows it returns are the projected rows of the candidates, each as often as projected,
  in ascending order of the \<open>ORDER\<close> column: by magnitude when the column holds numbers,
  lexicographically by the UTF-16 code units (a proper prefix first) when it holds strings.
\<close>

theorem ordered_rows_sorted:
  assumes "performQuery eng st query = Inr rows"
    and "get_prop (Some query) ''OPTIONS'' = Inr options"
    and "get_prop options ''ORDER'' = Inr (Some (JStr order))"
    and "(\<forall>r\<in>set rows. \<exists>x. map_of r order = Some (Num x)) \<or>
         (\<forall>r\<in>set rows. \<exists>s. map_of r order = Some (Str s))"
  shows "sorted_wrt (\<lambda>a b. unit_le (map_of a order) (map_of b order)) rows \<and>
         (\<exists>ident filt courseSet columns results.
            extractId query = Inr ident \<and> get_prop (Some query) ''WHERE'' = Inr (Some filt) \<and>
            findCourses eng st filt ident = Inr courseSet \<and>
            get_prop options ''COLUMNS'' = Inr columns \<and>
            selectColumns eng st courseSet columns ident = Inr results \<and>
            mset rows = mset results)"
proof -
  let ?cmp = "\<lambda>a b. compareResults eng a b options"
  let ?le = "\<lambda>a b. unit_le (map_of a order) (map_of b order)"
  from queryResults_ordered [OF performQuery_rows [OF assms(1)] assms(2)]
  obtain ident filt courseSet columns results where
    projected: "extractId query = Inr ident" "get_prop (Some query) ''WHERE'' = Inr (Some filt)"
      "findCourses eng st filt ident = Inr courseSet" "get_prop options ''COLUMNS'' = Inr columns"
      "selectColumns eng st courseSet columns ident = Inr results"
    and ordered: "orderResults eng options results = Inr rows"
    by blast
  from ordered have sort: "array_sort ?cmp results = Inr rows"
    using assms(3) by (rule orderResults_sorts)
  then have perm: "mset rows = mset results" by (rule array_sort_mset)
  from sort have same: "set rows = set results" by (rule array_sort_set)
  have cmp: "?cmp a b = rule eng (map_of a order) (map_of b order)" for a b
    using assms(3) by (simp add: compareResults_def)
  have sorted: "sorted_wrt ?le rows"
    using assms(4)
  proof
    assume num: "\<forall>r\<in>set rows. \<exists>x. map_of r order = Some (Num x)"
    let ?D = "{r. \<exists>x. map_of r order = Some (Num x)}"
    have 1: "\<exists>c. ?cmp a b = Inr c \<and> (c \<le> 0 \<longleftrightarrow> ?le a b)" if "a \<in> ?D" "b \<in> ?D" for a b
      using that by (auto simp: cmp rule_def unit_le_def scalar_to_number_def)
    have 2: "?le a b \<or> ?le b a" if "a \<in> ?D" "b \<in> ?D" for a b
      using that by (auto simp: unit_le_def)
    have 3: "?le a c" if "a \<in> ?D" "b \<in> ?D" "c \<in> ?D" "?le a b" "?le b c" for a b c
      using that by (auto simp: unit_le_def)
    have 4: "set results \<subseteq> ?D" using num same by auto
    show ?thesis
      by (rule array_sort_sorted [of ?D ?cmp ?le, OF 1 2 3 4 sort])
  next
    assume str: "\<forall>r\<in>set rows. \<exists>s. map_of r order = Some (Str s)"
    let ?D = "{r. \<exists>s. map_of r order = Some (Str s)}"
    have 1: "\<exists>c. ?cmp a b = Inr c \<and> (c \<le> 0 \<longleftrightarrow> ?le a b)" if "a \<in> ?D" "b \<in> ?D" for a b
      using that by (auto simp: cmp rule_def unit_le_def rule_string_le)
    have 2: "?le a b \<or> ?le b a" if "a \<in> ?D" "b \<in> ?D" for a b
    proof -
      from that obtain s t where "map_of a order = Some (Str s)" "map_of b order = Some (Str t)"
        by auto
      with lexordp_eq_linear [of s t]
      show ?thesis by (simp add: unit_le_def)
    qed
    have 3: "?le a c" if "a \<in> ?D" "b \<in> ?D" "c \<in> ?D" "?le a b" "?le b c" for a b c
      using that by (auto simp: unit_le_def intro: lexordp_eq_trans)
    have 4: "set results \<subseteq> ?D" using str same by auto
    show ?thesis
      by (rule array_sort_sorted [of ?D ?cmp ?le, OF 1 2 3 4 sort])
  qed
  from sorted projected perm show ?thesis by blast
qed

theorem ordered_rows_sorted_witness:
  "performQuery example_engine example_store avg_order_query =
     Inr [[(''courses_avg'', Num 70)], [(''courses_avg'', Num 90)], [(''courses_avg'', Num 95)]] \<and>
   sorted_wrt (\<lambda>a b. unit_le (map_of a ''courses_avg'') (map_of b ''courses_avg''))
     [[(''courses_avg'', Num 70)], [(''courses_avg'', Num 90)], [(''courses_avg'', Num 95)]] \<and>
   performQuery example_engine example_store dept_order_query =
     Inr [[(''courses_dept'', Str (ascii ''cpsc''))], [(''courses_dept'', Str (ascii ''cpsc310''))],
          [(''courses_dept'', Str (ascii ''math''))]] \<and>
   sorted_wrt (\<lambda>a b. unit_le (map_of a ''courses_dept'') (map_of b ''courses_dept''))
     [[(''courses_dept'', Str (ascii ''cpsc''))], [(''courses_dept'', Str (ascii ''cpsc310''))],
      [(''courses_dept'', Str (ascii ''math''))]] \<and>
   performQuery example_engine astral_store dept_order_query =
     Inr [[(''courses_dept'', Str [0xD83D, 0xDE00])], [(''courses_dept'', Str [0xFF5E])]] \<and>
   sorted_wrt (\<lambda>a b. unit_le (map_of a ''courses_dept'') (map_of b ''courses_dept''))
     [[(''courses_dept'', Str [0xD83D, 0xDE00])], [(''courses_dept'', Str [0xFF5E])]]"
proof -
  have 1: "sorted_wrt (\<lambda>a b. unit_le (map_of a ''courses_avg'') (map_of b ''courses_avg''))
     [[(''courses_avg'', Num 70)], [(''courses_avg'', Num 90)], [(''courses_avg'', Num 95)]]"
    by (rule ordered_rows_sorted [OF avg_order_rows,
          of "Some (JObj [(''COLUMNS'', JArr [JStr ''courses_avg'']),
                          (''ORDER'', JStr ''courses_avg'')])", THEN conjunct1])
       (simp_all add: avg_order_query_def get_prop_def)
  have 2: "sorted_wrt (\<lambda>a b. unit_le (map_of a ''courses_dept'') (map_of b ''courses_dept''))
     [[(''courses_dept'', Str (ascii ''cpsc''))], [(''courses_dept'', Str (ascii ''cpsc310''))],
      [(''courses_dept'', Str (ascii ''math''))]]"
    by (rule ordered_rows_sorted [OF dept_order_rows,
          of "Some (JObj [(''COLUMNS'', JArr [JStr ''courses_dept'']),
                          (''ORDER'', JStr ''courses_dept'')])", THEN conjunct1])
       (simp_all add: dept_order_query_def get_prop_def)
  have 3: "sorted_wrt (\<lambda>a b. unit_le (map_of a ''courses_dept'') (map_of b ''courses_dept''))
     [[(''courses_dept'', Str [0xD83D, 0xDE00])], [(''courses_dept'', Str [0xFF5E])]]"
    by (rule ordered_rows_sorted [OF astral_order_rows,
          of "Some (JObj [(''COLUMNS'', JArr [JStr ''courses_dept'']),
                          (''ORDER'', JStr ''courses_dept'')])", THEN conjunct1])
       (simp_all add: dept_order_query_def get_prop_def)
  from 1 2 3 avg_order_rows dept_order_rows astral_order_rows show ?thesis by simp
qed

text \<open>
  Claim C8, as the spec words it, fails: \<open>rule\<close> compares code units. The one code unit of
  U+FF5E is greater than the high surrogate of U+1F600, so the row of U+1F600 comes first, while
  in the order of the code points U+FF5E comes first.
\<close>

theorem code_point_order_counterexample:
  "performQuery example_engine astral_store dept_order_query =
     Inr [[(''courses_dept'', Str [0xD83D, 0xDE00])], [(''courses_dept'', Str [0xFF5E])]] \<and>
   \<not> spec_le (map_of [(''courses_dept'', Str [0xD83D, 0xDE00])] ''courses_dept'')
              (map_of [(''courses_dept'', Str [0xFF5E])] ''courses_dept'') \<and>
   spec_le (map_of [(''courses_dept'', Str [0xFF5E])] ''courses_dept'')
           (map_of [(''courses_dept'', Str [0xD83D, 0xDE00])] ''courses_dept'')"
  by (simp add: astral_order_rows spec_le_def)

section \<open>The filter evaluator: the index range\<close>

text \<open>Every index an evaluation returns is an index of the dataset.\<close>

lemma setFilter_subset: "setFilter xs p = Inr ys \<Longrightarrow> set ys \<subseteq> set xs"
  by (induction xs arbitrary: ys) (auto split: sum.splits if_splits)

lemma filterCourses_subset:
  "filterCourses eng d allCourses key v comparator = Inr s \<Longrightarrow> set s \<subseteq> set allCourses"
  by (auto simp: filterCourses_def split: list.splits if_splits option.splits prod.splits
      dest: setFilter_subset)

lemma findCourses_not_content:
  assumes "getDataset st ident = Inr d" "Object_entries filt = Inr [(''NOT'', content)]"
    "\<forall>subs. content \<noteq> JArr subs"
  shows "findCourses eng st filt ident =
     (case findCourses eng st content ident of
        Inl e \<Rightarrow> Inl e
      | Inr s \<Rightarrow> Inr (complementary s [0..<length d]))"
  using assms by (subst findCourses.simps, cases content) (simp_all add: Let_def)

lemma findCourses_comparison:
  assumes "getDataset st ident = Inr d" "Object_entries filt = Inr [(comparator, content)]"
    "\<forall>subs. content \<noteq> JArr subs" "comparator \<noteq> ''NOT''"
    "findCourses eng st filt ident = Inr s"
  shows "\<exists>k v. filterCourses eng d [0..<length d] k v comparator = Inr s"
proof -
  from assms have "(case Object_entries content of
      Inl e \<Rightarrow> Inl e
    | Inr [(contentKey, contentValue)] \<Rightarrow>
        if \<not> qualified_name contentKey
        then Inl (InsightError ''Invalid key format in filter content'')
        else if split_at contentKey 0 \<noteq> Some ident
        then Inl (InsightError ''Cannot query from two datasets'')
        else filterCourses eng d [0..<length d]
               (case split_at contentKey 1 of None \<Rightarrow> [] | Some k \<Rightarrow> k)
               contentValue comparator
    | Inr _ \<Rightarrow> Inl (InsightError ''Filter content should have one and only one key'')) = Inr s"
    by (subst (asm) findCourses.simps, cases content) (simp_all add: Let_def)
  then show ?thesis
    by (auto split: sum.splits list.splits if_splits prod.splits)
qed

lemma findCourses_range_both:
  "(\<forall>s d. findCourses eng st filt ident = Inr s \<longrightarrow> getDataset st ident = Inr d \<longrightarrow>
      set s \<subseteq> {..<length d}) \<and> True"
  "(\<forall>ss d. findCoursesEach eng st fs ident = Inr ss \<longrightarrow> getDataset st ident = Inr d \<longrightarrow>
      (\<forall>s\<in>set ss. set s \<subseteq> {..<length d})) \<and> True"
proof (induction eng st filt ident and eng st fs ident rule: findCourses_findCoursesEach.induct)
  case (1 eng st filt ident)
  show ?case
  proof (intro conjI allI impI TrueI)
    fix s d
    assume r: "findCourses eng st filt ident = Inr s" and d: "getDataset st ident = Inr d"
    show "set s \<subseteq> {..<length d}"
    proof (cases "Object_entries filt")
      case (Inl e)
      with r d show ?thesis by (subst (asm) findCourses.simps) simp
    next
      case (Inr es)
      show ?thesis
      proof (cases es)
        case Nil
        with r d Inr show ?thesis
          by (subst (asm) findCourses.simps) (auto split: if_splits)
      next
        case (Cons e es')
        obtain comparator content where e: "e = (comparator, content)" by (cases e)
        show ?thesis
        proof (cases es')
          case Nil
          note es = Inr Cons e Nil
          show ?thesis
          proof (cases "\<exists>subs. content = JArr subs")
            case True
            then obtain subs where c: "content = JArr subs" by blast
            from r d es c obtain ss where ss: "findCoursesEach eng st subs ident = Inr ss"
              "ss \<noteq> []" "s = unionSets ss \<or> s = intersecion ss"
              by (subst (asm) findCourses.simps) (auto split: sum.splits if_splits)
            note ih = "1.IH"(5) [OF d refl Inr Cons e [symmetric] Nil c]
            have all: "\<forall>s\<in>set ss. set s \<subseteq> {..<length d}"
              using ih ss(1) d by simp
            have "set s \<subseteq> (\<Union>t\<in>set ss. set t)"
              using ss(2,3) by (cases ss) (auto simp: unionSets_def)
            with all show ?thesis by blast
          next
            case False
            show ?thesis
            proof (cases "comparator = ''NOT''")
              case True
              from r d es False True obtain t where "s = complementary t [0..<length d]"
                by (auto simp: findCourses_not_content [of st ident d filt content]
                    split: sum.splits)
              then show ?thesis by (auto simp: complementary_def)
            next
              case nn: False
              from d es False nn r
              have "\<exists>k v. filterCourses eng d [0..<length d] k v comparator = Inr s"
                by (intro findCourses_comparison [of st ident d filt comparator content]) simp_all
              then obtain k v where "filterCourses eng d [0..<length d] k v comparator = Inr s"
                by blast
              from filterCourses_subset [OF this] show ?thesis by auto
            qed
          qed
        next
          case (Cons e2 es2)
          with r d Inr \<open>es = e # es'\<close> show ?thesis
            by (subst (asm) findCourses.simps) (auto split: prod.splits)
        qed
      qed
    qed
  qed
next
  case (2 eng st ident)
  then show ?case by simp
next
  case (3 eng st subFilter rest ident)
  then show ?case by (auto split: sum.splits)
qed

lemma findCourses_range:
  "findCourses eng st filt ident = Inr s \<Longrightarrow> getDataset st ident = Inr d \<Longrightarrow>
   set s \<subseteq> {..<length d}"
  using findCourses_range_both(1) [of eng st filt ident] by blast


section \<open>The keys of OPTIONS\<close>

lemma caught_InsightError: "caught r = Inl e \<Longrightarrow> \<exists>m. e = InsightError m"
  by (auto simp: caught_def split: sum.splits)

lemma checkColumns_strings:
  "checkColumns eng (map JStr cs) ident = Inl e \<Longrightarrow> \<exists>m. e = InsightError m"
  by (induction cs) (auto simp: split_of_def split: if_splits)

lemma selectRow_strings:
  "getDataset st ident = Inr d \<Longrightarrow> course < length d \<Longrightarrow>
   selectRow eng st ident course (map JStr cs) result = Inl e \<Longrightarrow> \<exists>m. e = InsightError m"
  by (induction cs arbitrary: result) (auto simp: split_of_def split: option.splits)

lemma selectRows_strings:
  "getDataset st ident = Inr d \<Longrightarrow> set courseSet \<subseteq> {..<length d} \<Longrightarrow>
   selectRows eng st ident courseSet (map JStr cs) = Inl e \<Longrightarrow> \<exists>m. e = InsightError m"
proof (induction courseSet)
  case Nil
  then show ?case by simp
next
  case (Cons course rest)
  show ?case
  proof (cases "selectRow eng st ident course (map JStr cs) []")
    case (Inl e')
    with Cons.prems have "e = e'" by simp
    with Inl selectRow_strings [OF Cons.prems(1), of course eng cs "[]" e'] Cons.prems(2)
    show ?thesis by simp
  next
    case (Inr row)
    with Cons.prems(3) have "selectRows eng st ident rest (map JStr cs) = Inl e"
      by (simp split: sum.splits)
    with Cons.IH Cons.prems(1,2) show ?thesis by simp
  qed
qed

lemma selectColumns_strings:
  "getDataset st ident = Inr d \<Longrightarrow> set courseSet \<subseteq> {..<length d} \<Longrightarrow>
   selectColumns eng st courseSet (Some (JArr (map JStr cs))) ident = Inl e \<Longrightarrow>
   \<exists>m. e = InsightError m"
  by (auto simp: selectColumns_def iterate_def split: sum.splits
      dest: checkColumns_strings selectRows_strings)

lemma orderResults_rejection:
  "orderResults eng options results = Inl (Inl e) \<Longrightarrow> \<exists>m. e = InsightError m"
  by (auto simp: orderResults_def split: sum.splits if_splits bool.splits)

lemma three_keys:
  assumes "a \<in> set xs" "b \<in> set xs" "c \<in> set xs" "a \<noteq> b" "a \<noteq> c" "b \<noteq> c"
  shows "length xs > 2"
proof -
  have "card {a, b, c} \<le> card (set xs)"
    using assms(1-3) by (intro card_mono) auto
  moreover have "card {a, b, c} = 3" using assms(4-6) by simp
  moreover have "card (set xs) \<le> length xs" by (rule card_length)
  ultimately show ?thesis by linarith
qed

lemma two_keys:
  assumes "a \<in> set xs" "b \<in> set xs" "a \<noteq> b"
  shows "length xs > 1"
proof -
  have "card {a, b} \<le> card (set xs)"
    using assms(1-2) by (intro card_mono) auto
  moreover have "card {a, b} = 2" using assms(3) by simp
  moreover have "card (set xs) \<le> length xs" by (rule card_length)
  ultimately show ?thesis by linarith
qed

lemma orderResults_violation:
  assumes cols: "map_of opts ''COLUMNS'' = Some (JArr cols)"
    and violation: "(\<exists>k\<in>set (map fst opts). k \<noteq> ''COLUMNS'' \<and> k \<noteq> ''ORDER'') \<or>
       (\<exists>order. map_of opts ''ORDER'' = Some order \<and> order \<notin> set cols)"
  shows "orderResults eng (Some (JObj opts)) results \<noteq> Inr rows"
proof -
  have keys: "Object_keys (JObj opts) = Inr (map fst opts)"
    by (simp add: Object_keys_def Object_entries_def)
  from cols have c: "''COLUMNS'' \<in> set (map fst opts)"
    by (metis map_of_eq_None_iff option.distinct(1) set_map)
  show ?thesis
  proof (cases "''ORDER'' \<in> set (map fst opts)")
    case True
    then obtain order where order: "map_of opts ''ORDER'' = Some order"
      by (metis map_of_eq_None_iff not_None_eq set_map)
    show ?thesis
    proof (cases "length (map fst opts) > 2")
      case long: True
      with True keys show ?thesis by (simp add: orderResults_def)
    next
      case False
      have "\<not> (\<exists>k\<in>set (map fst opts). k \<noteq> ''COLUMNS'' \<and> k \<noteq> ''ORDER'')"
      proof
        assume "\<exists>k\<in>set (map fst opts). k \<noteq> ''COLUMNS'' \<and> k \<noteq> ''ORDER''"
        then obtain k where "k \<in> set (map fst opts)" "k \<noteq> ''COLUMNS''" "k \<noteq> ''ORDER''"
          by blast
        with three_keys [of k "map fst opts" "''COLUMNS''" "''ORDER''"] c True False
        show False by simp
      qed
      with violation order have "order \<notin> set cols" by auto
      then have "\<not> array_includes cols order"
        by (auto simp: array_includes_def split: json.splits)
      with True False keys cols order show ?thesis
        by (simp add: orderResults_def get_prop_def columns_include_def)
    qed
  next
    case False
    then have "map_of opts ''ORDER'' = None"
      by (simp add: map_of_eq_None_iff)
    with violation obtain k where k: "k \<in> set (map fst opts)" "k \<noteq> ''COLUMNS''"
      by auto
    from two_keys [OF k(1) c k(2)] False keys show ?thesis
      by (simp add: orderResults_def)
  qed
qed


text \<open>
  Claim C7. Let \<open>OPTIONS\<close> be an object whose \<open>COLUMNS\<close>, if present, is an array of strings.
  If \<open>OPTIONS\<close> has a key other than \<open>COLUMNS\<close> and \<open>ORDER\<close>, or has an \<open>ORDER\<close> whose value is
  not an element of \<open>COLUMNS\<close>, then \<open>performQuery\<close> rejects with an \<^verbatim>\<open>InsightError\<close> (the
  class of the spec's shape errors) and returns no rows.
\<close>

theorem options_keys_enforced:
  assumes opts: "get_prop (Some query) ''OPTIONS'' = Inr (Some (JObj opts))"
    and typed: "\<forall>v. map_of opts ''COLUMNS'' = Some v \<longrightarrow> (\<exists>cs. v = JArr (map JStr cs))"
    and violation: "(\<exists>k\<in>set (map fst opts). k \<noteq> ''COLUMNS'' \<and> k \<noteq> ''ORDER'') \<or>
       (\<exists>order. map_of opts ''ORDER'' = Some order \<and>
          (\<forall>cols. map_of opts ''COLUMNS'' = Some (JArr cols) \<longrightarrow> order \<notin> set cols))"
  shows "\<exists>m. performQuery eng st query = Inl (InsightError m)"
proof -
  have fail: "\<exists>m. queryResults eng st query = Inl (InsightError m)"
  proof -
    from opts obtain kvs where q: "query = JObj kvs"
      by (cases query) (simp_all add: get_prop_def)
    have keys: "Object_keys query = Inr (map fst kvs)"
      by (simp add: q Object_keys_def Object_entries_def)
    show ?thesis
    proof (cases "\<not> (length (map fst kvs) = 2) \<or> ''OPTIONS'' \<notin> set (map fst kvs) \<or>
        ''WHERE'' \<notin> set (map fst kvs)")
      case True
      with keys show ?thesis by (auto simp: queryResults_def)
    next
      case shape: False
      show ?thesis
      proof (cases "caught (extractId query)")
        case (Inl e)
        with keys shape caught_InsightError [OF Inl] show ?thesis
          by (auto simp: queryResults_def)
      next
        case (Inr ident)
        then have ext: "extractId query = Inr ident"
          by (simp add: caught_def split: sum.splits)
        with opts obtain cs where cs: "map_of opts ''COLUMNS'' = Some (JArr (map JStr cs))"
          using typed
          by (cases "map_of opts ''COLUMNS''")
             (auto simp: extractId_def get_prop_def first_elem_def)
        show ?thesis
        proof (cases "containsDataset st ident")
          case False
          with keys shape Inr show ?thesis by (auto simp: queryResults_def)
        next
          case True
          then obtain d where d: "getDataset st ident = Inr d"
            by (cases "map_of st ident")
               (auto simp: containsDataset_def getDataset_def map_of_eq_None_iff)
          let ?found = "caught (case get_prop (Some query) ''WHERE'' of
                Inl e \<Rightarrow> Inl e
              | Inr None \<Rightarrow> Inl (TypeError ''Cannot convert undefined or null to object'')
              | Inr (Some filt) \<Rightarrow> findCourses eng st filt ident)"
          show ?thesis
          proof (cases ?found)
            case (Inl e)
            with keys shape Inr True caught_InsightError [OF Inl] show ?thesis
              by (auto simp: queryResults_def)
          next
            case found: (Inr courseSet)
            then obtain filt where "findCourses eng st filt ident = Inr courseSet"
              by (auto simp: caught_def split: sum.splits option.splits)
            then have range: "set courseSet \<subseteq> {..<length d}"
              using d by (rule findCourses_range)
            have oc: "caught (case get_prop (Some query) ''OPTIONS'' of
                  Inl e \<Rightarrow> Inl e
                | Inr options \<Rightarrow>
                    (case get_prop options ''COLUMNS'' of
                       Inl e \<Rightarrow> Inl e
                     | Inr columns \<Rightarrow> Inr (options, columns))) =
                Inr (Some (JObj opts), Some (JArr (map JStr cs)))"
              using opts cs by (simp add: caught_def get_prop_def)
            show ?thesis
            proof (cases "selectColumns eng st courseSet (Some (JArr (map JStr cs))) ident")
              case (Inl e)
              from selectColumns_strings [OF d range Inl] obtain m where "e = InsightError m" ..
              with keys shape Inr True found oc Inl show ?thesis
                by (simp add: queryResults_def)
            next
              case sel: (Inr results)
              from violation cs
              have v: "(\<exists>k\<in>set (map fst opts). k \<noteq> ''COLUMNS'' \<and> k \<noteq> ''ORDER'') \<or>
                  (\<exists>order. map_of opts ''ORDER'' = Some order \<and> order \<notin> set (map JStr cs))"
                by auto
              show ?thesis
              proof (cases "orderResults eng (Some (JObj opts)) results")
                case (Inl e)
                show ?thesis
                proof (cases e)
                  case (Inl e1)
                  with \<open>orderResults eng (Some (JObj opts)) results = Inl e\<close>
                  have o: "orderResults eng (Some (JObj opts)) results = Inl (Inl e1)" by simp
                  from orderResults_rejection [OF o] obtain m where "e1 = InsightError m" ..
                  with keys shape Inr True found oc sel o show ?thesis
                    by (simp add: queryResults_def)
                next
                  case (Inr e2)
                  with \<open>orderResults eng (Some (JObj opts)) results = Inl e\<close>
                  have o: "orderResults eng (Some (JObj opts)) results = Inl (Inr e2)" by simp
                  with keys shape \<open>caught (extractId query) = Inr ident\<close> True found oc sel
                  show ?thesis
                    by (simp add: queryResults_def)
                qed
              next
                case (Inr rows)
                with orderResults_violation [OF cs v, of eng results rows] show ?thesis by simp
              qed
            qed
          qed
        qed
      qed
    qed
  qed
  then show ?thesis by (auto simp: performQuery_def)
qed


theorem options_keys_enforced_witness:
  "performQuery example_engine example_store extra_key_query =
     Inl (InsightError ''Invalid key in column'') \<and>
   performQuery example_engine example_store stray_order_query =
     Inl (InsightError ''Value of ORDER not exists in COLUMNS'')"
proof -
  have 1: "\<exists>m. performQuery example_engine example_store extra_key_query = Inl (InsightError m)"
    by (rule options_keys_enforced
          [of extra_key_query "[(''COLUMNS'', JArr [JStr ''courses_avg'']), (''LIMIT'', JNum 1)]"])
       (auto simp: extra_key_query_def get_prop_def intro: exI [of _ "[''courses_avg'']"])
  have 2: "\<exists>m. performQuery example_engine example_store stray_order_query = Inl (InsightError m)"
    by (rule options_keys_enforced
          [of stray_order_query
              "[(''COLUMNS'', JArr [JStr ''courses_avg'']), (''ORDER'', JStr ''courses_dept'')]"])
       (auto simp: stray_order_query_def get_prop_def intro: exI [of _ "[''courses_avg'']"])
  have e1: "performQuery example_engine example_store extra_key_query =
     Inl (InsightError ''Invalid key in column'')"
    by (simp add: performQuery_def queryResults_def extra_key_query_def Object_keys_def
      Object_entries_def extractId_def get_prop_def first_elem_def split_of_def split_at_def
      caught_def containsDataset_def example_store_def findCourses.simps [of _ _ "JObj []"]
      getDataset_def example_courses_def selectColumns_def iterate_def qualified_name_def
      orderResults_def)
  have e2: "performQuery example_engine example_store stray_order_query =
     Inl (InsightError ''Value of ORDER not exists in COLUMNS'')"
    by (simp add: performQuery_def queryResults_def stray_order_query_def Object_keys_def
      Object_entries_def extractId_def get_prop_def first_elem_def split_of_def split_at_def
      caught_def containsDataset_def example_store_def findCourses.simps [of _ _ "JObj []"]
      getDataset_def example_courses_def selectColumns_def iterate_def qualified_name_def
      orderResults_def columns_include_def array_includes_def)
  from 1 2 e1 e2 show ?thesis by simp
qed

section \<open>The projector: unknown columns\<close>

text \<open>
  For columns that are strings, a column of the wrong format or of another dataset is
  rejected whatever the candidate set is; a column naming no field of a record is rejected
  when that record is the first candidate.
\<close>

lemma checkColumns_rejects:
  assumes "\<exists>c\<in>set cs. \<not> qualified_name c \<or> split_at c 0 \<noteq> Some ident"
  shows "\<exists>m. checkColumns eng (map JStr cs) ident = Inl (InsightError m)"
  using assms by (induction cs) (auto simp: split_of_def)

lemma selectColumns_rejects_format:
  assumes "\<exists>c\<in>set cs. \<not> qualified_name c \<or> split_at c 0 \<noteq> Some ident"
  shows "\<exists>m. selectColumns eng st courseSet (Some (JArr (map JStr cs))) ident =
           Inl (InsightError m)"
  using checkColumns_rejects [OF assms, of eng]
  by (auto simp: selectColumns_def iterate_def)

lemma selectRow_rejects_field:
  assumes "getDataset st ident = Inr d" "course < length d"
    and "\<exists>c\<in>set cs. \<forall>k. split_at c 1 = Some k \<longrightarrow> map_of (d ! course) k = None"
  shows "\<exists>m. selectRow eng st ident course (map JStr cs) result = Inl (InsightError m)"
  using assms by (induction cs arbitrary: result) (auto simp: split_of_def split: option.splits)

lemma selectColumns_rejects_field:
  assumes "getDataset st ident = Inr d" "course < length d"
    and "\<exists>c\<in>set cs. \<forall>k. split_at c 1 = Some k \<longrightarrow> map_of (d ! course) k = None"
  shows "\<exists>m. selectColumns eng st (course # rest) (Some (JArr (map JStr cs))) ident =
           Inl (InsightError m)"
proof (cases "checkColumns eng (map JStr cs) ident")
  case (Inl e)
  with checkColumns_strings [OF Inl] show ?thesis
    by (auto simp: selectColumns_def iterate_def)
next
  case (Inr u)
  with selectRow_rejects_field [OF assms, of eng "[]"] show ?thesis
    by (auto simp: selectColumns_def iterate_def)
qed


text \<open>
  Claim C5 says that a column naming no field of the records fails the query for every
  candidate set, the empty one included. \<open>selectColumns\<close> checks the format and the dataset
  of the columns before its loop over the candidates, but looks a field up only inside that
  loop: no record of \<open>courses\<close> has a field \<open>nope\<close>, and the query for the column
  \<open>courses_nope\<close> resolves with no rows when its filter matches no record, while it is
  rejected when the filter matches all.
\<close>

theorem unknown_column_empty_result:
  "list_all (\<lambda>c. map_of c ''nope'' = None) example_courses \<and>
   performQuery example_engine example_store unknown_column_query = Inr [] \<and>
   performQuery example_engine example_store unknown_column_all_query =
     Inl (InsightError ''Key in columns not exists in dataset: courses_nope'')"
proof -
  have none: "findCourses example_engine example_store
      (JObj [(''GT'', JObj [(''courses_avg'', JNum 100)])]) ''courses'' = Inr []"
    by (subst findCourses.simps)
       (simp add: example_dataset Object_entries_def qualified_name_def split_at_def
          filterCourses_def mapping_def example_courses_def field_def GT_def
          scalar_to_number_def)
  have all: "findCourses example_engine example_store (JObj []) ''courses'' = Inr [0, 1, 2]"
    using findCourses_empty [OF example_dataset, of example_engine]
    by (simp add: example_courses_def)
  have contains: "containsDataset example_store ''courses''"
    by (simp add: containsDataset_def example_store_def)
  have 1: "performQuery example_engine example_store unknown_column_query = Inr []"
    by (simp add: performQuery_def queryResults_def unknown_column_query_def Object_keys_def
      Object_entries_def extractId_def get_prop_def first_elem_def split_of_def split_at_def
      caught_def contains none selectColumns_def iterate_def qualified_name_def
      orderResults_def)
  have 2: "performQuery example_engine example_store unknown_column_all_query =
     Inl (InsightError ''Key in columns not exists in dataset: courses_nope'')"
    by (simp add: performQuery_def queryResults_def unknown_column_all_query_def Object_keys_def
      Object_entries_def extractId_def get_prop_def first_elem_def split_of_def split_at_def
      caught_def contains all selectColumns_def iterate_def qualified_name_def
      example_dataset example_courses_def)
  from 1 2 show ?thesis by (simp add: example_courses_def)
qed

section \<open>The filter evaluator: wildcards\<close>

text \<open>The examples of the spec.\<close>

lemma wildcard_examples:
  "IS eng (Some (Str (ascii ''cpsc310''))) (JStr ''cpsc*'') = Inr True"
  "IS eng (Some (Str (ascii ''cpsc''))) (JStr ''cpsc*'') = Inr True"
  "IS eng (Some (Str (ascii ''x-cpsc310''))) (JStr ''cpsc*'') = Inr False"
  "IS eng (Some (Str (ascii ''cpsc310''))) (JStr ''*310'') = Inr True"
  "IS eng (Some (Str (ascii ''cpsc310x''))) (JStr ''*310'') = Inr False"
  "IS eng (Some (Str (ascii ''cpsc310''))) (JStr ''*31*'') = Inr True"
  "IS eng (Some (Str (ascii ''cpsc310''))) (JStr ''c*0'') = Inl (InsightError ''Invalid regex filter value'')"
  by (simp_all add: IS_def wildcard_shape_def wildcard_test_def regexp_special_def
      scalar_to_string_def atom_match_def line_terminator_def ascii_def)

text \<open>
  For a value without a dot and without another character of regular-expression syntax,
  and a stored string without line terminators, \<open>IS\<close> follows the rule of the spec.
\<close>

lemma split_none: "c \<notin> set xs \<Longrightarrow> split c xs = [xs]"
  by (induction xs) auto

lemma split_last: "c \<notin> set xs \<Longrightarrow> split c (xs @ [c]) = [xs, []]"
  by (induction xs) auto

lemma atoms_literal:
  "CHR ''.'' \<notin> set body \<Longrightarrow> list_all2 atom_match body x \<longleftrightarrow> x = ascii body"
  by (induction body arbitrary: x) (auto simp: list_all2_Cons1 atom_match_def ascii_def)

lemma filter_stars: "CHR ''*'' \<notin> set body \<Longrightarrow> filter (\<lambda>c. c \<noteq> CHR ''*'') body = body"
  by (induction body) auto

lemma shape_forms:
  assumes "CHR ''*'' \<in> set v" "wildcard_shape v"
  obtains body where "CHR ''*'' \<notin> set body"
    "v = CHR ''*'' # body \<or> v = body @ ''*'' \<or> v = CHR ''*'' # body @ ''*''"
proof (cases v)
  case Nil
  with assms(1) show ?thesis by simp
next
  case (Cons c cs)
  show ?thesis
  proof (cases "c = CHR ''*''")
    case True
    show ?thesis
    proof (cases "cs \<noteq> [] \<and> last cs = CHR ''*''")
      case last: True
      then have "cs = butlast cs @ ''*''" by (metis append_butlast_last_id)
      moreover from assms(2) Cons True last have "CHR ''*'' \<notin> set (butlast cs)"
        by (simp add: wildcard_shape_def)
      ultimately show ?thesis using that [of "butlast cs"] Cons True by auto
    next
      case False
      with assms(2) Cons True have "CHR ''*'' \<notin> set cs"
        by (auto simp: wildcard_shape_def)
      then show ?thesis using that [of cs] Cons True by simp
    qed
  next
    case False
    have "v \<noteq> [] \<and> last v = CHR ''*''"
    proof (rule ccontr)
      assume "\<not> (v \<noteq> [] \<and> last v = CHR ''*'')"
      with assms(2) Cons False have "CHR ''*'' \<notin> set v"
        by (auto simp: wildcard_shape_def)
      with assms(1) show False by simp
    qed
    then have "v = butlast v @ ''*''" by (metis append_butlast_last_id)
    moreover from assms(2) Cons False \<open>v \<noteq> [] \<and> last v = CHR ''*''\<close>
    have "CHR ''*'' \<notin> set (butlast v)"
      by (simp add: wildcard_shape_def)
    ultimately show ?thesis using that [of "butlast v"] by auto
  qed
qed


lemma shape_of_forms:
  assumes "CHR ''*'' \<notin> set body"
  shows "wildcard_shape (CHR ''*'' # body)" "wildcard_shape (body @ ''*'')"
    "wildcard_shape (CHR ''*'' # body @ ''*'')"
proof -
  from assms have l: "body \<noteq> [] \<Longrightarrow> last body \<noteq> CHR ''*''"
    using last_in_set by metis
  from assms l show "wildcard_shape (CHR ''*'' # body)"
    by (auto simp: wildcard_shape_def)
  from assms show "wildcard_shape (CHR ''*'' # body @ ''*'')"
    by (simp add: wildcard_shape_def)
  from assms show "wildcard_shape (body @ ''*'')"
    by (cases body) (auto simp: wildcard_shape_def)
qed

lemma spec_empty: "spec_substring [] a" "spec_suffix [] a" "spec_prefix [] a"
  by (auto simp: spec_substring_def spec_suffix_def spec_prefix_def list_ex_iff
      intro: bexI [of _ "length a"])

lemma match_prefix:
  assumes "CHR ''.'' \<notin> set body" "\<forall>c\<in>set s. \<not> line_terminator c"
  shows "pieces_match [body, []] s = (take (length body) s = ascii body)"
proof -
  have "list_ex (\<lambda>k. list_all (\<lambda>c. \<not> line_terminator c) (take k (drop (length body) s)) \<and>
          drop k (drop (length body) s) = [])
        [0..<Suc (length s - length body)]"
    if "length body \<le> length s"
    using assms(2) that
    by (auto simp: list_ex_iff list_all_iff intro!: bexI [of _ "length s - length body"]
        dest: in_set_takeD in_set_dropD)
  moreover have "length body \<le> length s" if "take (length body) s = ascii body"
  proof -
    from that have "length (take (length body) s) = length body" by (simp add: ascii_def)
    then show ?thesis by simp
  qed
  ultimately show ?thesis
    using assms(1) by (auto simp: atoms_literal)
qed

lemma wildcard_test_forms:
  assumes plain: "\<forall>c\<in>set body. \<not> regexp_special c \<and> c \<noteq> CHR ''.'' \<and> c \<noteq> CHR ''*''"
    and a: "\<forall>c\<in>set a. \<not> line_terminator c"
  shows "wildcard_test eng (CHR ''*'' # body) a = Inr (spec_suffix (ascii body) a)"
    and "wildcard_test eng (body @ ''*'') a = Inr (spec_prefix (ascii body) a)"
    and "wildcard_test eng (CHR ''*'' # body @ ''*'') a = Inr (spec_substring (ascii body) a)"
proof -
  from plain have star: "CHR ''*'' \<notin> set body" and dot: "CHR ''.'' \<notin> set body"
    and special: "\<not> list_ex regexp_special body"
    by (auto simp: list_ex_iff)
  have free: "list_all (\<lambda>c. \<not> line_terminator c) (take k a)" for k
    using a by (auto simp: list_all_iff dest: in_set_takeD)
  have free': "\<forall>c\<in>set (drop k a). \<not> line_terminator c" for k
    using a by (auto dest: in_set_dropD)
  show "wildcard_test eng (CHR ''*'' # body) a = Inr (spec_suffix (ascii body) a)"
    using special
    by (simp add: wildcard_test_def split_none [OF star] free atoms_literal [OF dot]
        spec_suffix_def)
  show "wildcard_test eng (body @ ''*'') a = Inr (spec_prefix (ascii body) a)"
    using special
    by (simp add: wildcard_test_def split_last [OF star] match_prefix [OF dot a]
        spec_prefix_def del: pieces_match.simps)
  show "wildcard_test eng (CHR ''*'' # body @ ''*'') a = Inr (spec_substring (ascii body) a)"
    using special
    by (simp add: wildcard_test_def split_last [OF star] free match_prefix [OF dot free']
        spec_substring_def del: pieces_match.simps(3))
       (simp add: pieces_match.simps(3) [of "[]"] free match_prefix [OF dot free']
          del: pieces_match.simps)
qed


lemma star_last_member: "body @ ''*'' \<in> set [CHR ''*'' # body, body @ ''*'', CHR ''*'' # body @ ''*'']"
  by (metis list.set_intros(1,2))

lemma star_first_member: "CHR ''*'' # body \<in> set [CHR ''*'' # body, body @ ''*'', CHR ''*'' # body @ ''*'']"
  by (metis list.set_intros(1))

lemma star_both_member: "CHR ''*'' # body @ ''*'' \<in> set [CHR ''*'' # body, body @ ''*'', CHR ''*'' # body @ ''*'']"
  by (metis list.set_intros(1,2))

lemma spec_IS_unfold:
  assumes "CHR ''*'' \<in> set v" "filter (\<lambda>c. c \<noteq> CHR ''*'') v = body"
    "v \<in> set [CHR ''*'' # body, body @ ''*'', CHR ''*'' # body @ ''*'']"
  shows "spec_IS v a =
    (if hd v = CHR ''*'' \<and> last v = CHR ''*'' then Inr (spec_substring (ascii body) a)
      else if hd v = CHR ''*'' then Inr (spec_suffix (ascii body) a)
      else Inr (spec_prefix (ascii body) a))"
  unfolding spec_IS_def Let_def assms(2)
  using assms(1,3) by (simp only: not_True_eq_False not_not if_False if_True simp_thms)

lemma spec_IS_forms:
  assumes star: "CHR ''*'' \<notin> set body"
  shows "spec_IS (CHR ''*'' # body) a = Inr (spec_suffix (ascii body) a)"
    and "spec_IS (body @ ''*'') a = Inr (spec_prefix (ascii body) a)"
    and "spec_IS (CHR ''*'' # body @ ''*'') a = Inr (spec_substring (ascii body) a)"
proof -
  from star have l: "body \<noteq> [] \<Longrightarrow> last body \<noteq> CHR ''*''"
    using last_in_set by metis
  from star have h: "body \<noteq> [] \<Longrightarrow> hd body \<noteq> CHR ''*''"
    using hd_in_set by metis
  have f1: "filter (\<lambda>c. c \<noteq> CHR ''*'') (CHR ''*'' # body) = body"
    by (simp add: filter_stars [OF star])
  have f2: "filter (\<lambda>c. c \<noteq> CHR ''*'') (body @ ''*'') = body"
    by (simp add: filter_stars [OF star])
  have f3: "filter (\<lambda>c. c \<noteq> CHR ''*'') (CHR ''*'' # body @ ''*'') = body"
    by (simp add: filter_stars [OF star])
  have s1: "CHR ''*'' \<in> set (CHR ''*'' # body)" by simp
  have s2: "CHR ''*'' \<in> set (body @ ''*'')" by simp
  have s3: "CHR ''*'' \<in> set (CHR ''*'' # body @ ''*'')" by simp
  show "spec_IS (CHR ''*'' # body) a = Inr (spec_suffix (ascii body) a)"
    unfolding spec_IS_unfold [OF s1 f1 star_first_member]
    using l by (cases "body = []") (simp_all add: spec_empty)
  show "spec_IS (body @ ''*'') a = Inr (spec_prefix (ascii body) a)"
    unfolding spec_IS_unfold [OF s2 f2 star_last_member]
    using h by (cases "body = []") (simp_all add: spec_empty)
  show "spec_IS (CHR ''*'' # body @ ''*'') a = Inr (spec_substring (ascii body) a)"
    unfolding spec_IS_unfold [OF s3 f3 star_both_member] by simp
qed



lemma spec_IS_exact: "CHR ''*'' \<notin> set v \<Longrightarrow> spec_IS v a = Inr (a = ascii v)"
  unfolding spec_IS_def Let_def by (simp only: if_True not_False_eq_True)

lemma spec_IS_invalid:
  assumes "CHR ''*'' \<in> set v"
    "v \<notin> set [CHR ''*'' # filter (\<lambda>c. c \<noteq> CHR ''*'') v, filter (\<lambda>c. c \<noteq> CHR ''*'') v @ ''*'',
               CHR ''*'' # filter (\<lambda>c. c \<noteq> CHR ''*'') v @ ''*'']"
  shows "spec_IS v a = Inl (InsightError ''Invalid regex filter value'')"
  unfolding spec_IS_def Let_def using assms by (simp only: not_not if_True if_False simp_thms)

lemma IS_plain:
  assumes plain: "\<forall>c\<in>set v. \<not> regexp_special c \<and> c \<noteq> CHR ''.''"
    and a: "\<forall>c\<in>set a. \<not> line_terminator c"
  shows "IS eng (Some (Str a)) (JStr v) = spec_IS v a"
proof (cases "CHR ''*'' \<in> set v")
  case False
  then show ?thesis by (simp add: IS_def spec_IS_exact)
next
  case True
  let ?body = "filter (\<lambda>c. c \<noteq> CHR ''*'') v"
  have sf: "CHR ''*'' \<notin> set ?body" by simp
  show ?thesis
  proof (cases "wildcard_shape v")
    case False
    have "v \<notin> set [CHR ''*'' # ?body, ?body @ ''*'', CHR ''*'' # ?body @ ''*'']"
    proof
      assume "v \<in> set [CHR ''*'' # ?body, ?body @ ''*'', CHR ''*'' # ?body @ ''*'']"
      then have "v = CHR ''*'' # ?body \<or> v = ?body @ ''*'' \<or> v = CHR ''*'' # ?body @ ''*''"
        by (simp only: list.set insert_iff empty_iff simp_thms)
      then have "wildcard_shape v"
      proof (elim disjE)
        assume e: "v = CHR ''*'' # ?body"
        show ?thesis by (subst e) (rule shape_of_forms(1) [OF sf])
      next
        assume e: "v = ?body @ ''*''"
        show ?thesis by (subst e) (rule shape_of_forms(2) [OF sf])
      next
        assume e: "v = CHR ''*'' # ?body @ ''*''"
        show ?thesis by (subst e) (rule shape_of_forms(3) [OF sf])
      qed
      with False show False by simp
    qed
    with True have "spec_IS v a = Inl (InsightError ''Invalid regex filter value'')"
      by (rule spec_IS_invalid)
    with True False show ?thesis
      by (simp add: IS_def)
  next
    case shape: True
    from shape_forms [OF True shape] obtain body where star: "CHR ''*'' \<notin> set body"
      and forms: "v = CHR ''*'' # body \<or> v = body @ ''*'' \<or> v = CHR ''*'' # body @ ''*''"
      by blast
    have p: "\<forall>c\<in>set body. \<not> regexp_special c \<and> c \<noteq> CHR ''.'' \<and> c \<noteq> CHR ''*''"
    proof
      fix c assume c: "c \<in> set body"
      with forms have "c \<in> set v" by auto
      with plain star c show "\<not> regexp_special c \<and> c \<noteq> CHR ''.'' \<and> c \<noteq> CHR ''*''"
        by blast
    qed
    have code: "IS eng (Some (Str a)) (JStr v) = wildcard_test eng v a"
      using True shape by (simp add: IS_def scalar_to_string_def)
    from forms show ?thesis
    proof (elim disjE)
      assume v: "v = CHR ''*'' # body"
      show ?thesis unfolding code unfolding v
        by (simp only: wildcard_test_forms(1) [OF p a] spec_IS_forms(1) [OF star])
    next
      assume v: "v = body @ ''*''"
      show ?thesis unfolding code unfolding v
        by (simp only: wildcard_test_forms(2) [OF p a] spec_IS_forms(2) [OF star])
    next
      assume v: "v = CHR ''*'' # body @ ''*''"
      show ?thesis unfolding code unfolding v
        by (simp only: wildcard_test_forms(3) [OF p a] spec_IS_forms(3) [OF star])
    qed
  qed
qed

text \<open>
  Claim C3 says that the characters of an \<open>IS\<close> value other than the stars match
  literally. The value goes into the regular expression unescaped: with a trailing star the
  dot of \<open>c.sc*\<close> matches any character, so the records \<open>cpsc\<close> and \<open>cpsc310\<close> match a value
  that is no prefix of theirs; without a star the same characters are compared literally and
  match nothing.
\<close>

theorem wildcard_dot_matches_any_character:
  "findCourses example_engine example_store dot_prefix_filter ''courses'' = Inr [0, 2] \<and>
   findCourses example_engine example_store dot_exact_filter ''courses'' = Inr []"
proof -
  have 1: "findCourses example_engine example_store dot_prefix_filter ''courses'' = Inr [0, 2]"
    unfolding dot_prefix_filter_def
    by (subst findCourses.simps)
       (simp add: example_dataset Object_entries_def qualified_name_def split_at_def
          filterCourses_def mapping_def example_courses_def field_def IS_def wildcard_shape_def
          wildcard_test_def regexp_special_def scalar_to_string_def atom_match_def
          line_terminator_def ascii_def)
  have 2: "findCourses example_engine example_store dot_exact_filter ''courses'' = Inr []"
    unfolding dot_exact_filter_def
    by (subst findCourses.simps)
       (simp add: example_dataset Object_entries_def qualified_name_def split_at_def
          filterCourses_def mapping_def example_courses_def field_def IS_def)
  from 1 2 show ?thesis by simp
qed

end
